theory Spec2Isabelle
  imports Complex_Main
begin

section \<open>FlowBoard: the data model of \<^verbatim>\<open>src/types\<close>\<close>

text \<open>
  Strings are lists of characters with code points below 256. Time stamps and
  identifiers are strings, as in the source. The three column identifiers
  \<^verbatim>\<open>'todo' | 'in-progress' | 'done'\<close> and the three priorities are enumerations.
\<close>

datatype Priority = High | Medium | Low

datatype ColumnId = Todo | InProgress | Done

text \<open>
  A task is a JavaScript object. The interface \<^verbatim>\<open>Task\<close> requires every field, but
  the store builds objects by spreading (\<^verbatim>\<open>{ ...prev.tasks[taskId], ...updates }\<close>),
  and spreading \<^verbatim>\<open>undefined\<close> gives the empty object. So every field is optional in
  the model: \<open>None\<close> is a missing property (it reads as \<^verbatim>\<open>undefined\<close>). The fields of
  type \<^verbatim>\<open>string | null\<close> hold \<open>Some None\<close> for \<^verbatim>\<open>null\<close>.
\<close>

record Task =
  task_id :: "string option"
  title :: "string option"
  description :: "string option"
  priority :: "Priority option"
  dueDate :: "string option option"
  tags :: "string list option"
  createdAt :: "string option"
  completedAt :: "string option option"
  columnId :: "ColumnId option"

text \<open>\<^verbatim>\<open>Partial<Omit<Task, 'id' | 'createdAt'>>\<close>: \<open>None\<close> is a key that is not given.\<close>

record TaskUpdates =
  u_title :: "string option"
  u_description :: "string option"
  u_priority :: "Priority option"
  u_dueDate :: "string option option"
  u_tags :: "string list option"
  u_completedAt :: "string option option"
  u_columnId :: "ColumnId option"

record Column =
  col_id :: ColumnId
  col_title :: string
  taskIds :: "string list"

record BoardState =
  tasks :: "string \<rightharpoonup> Task"
  columns :: "ColumnId \<Rightarrow> Column"
  columnOrder :: "ColumnId list"

datatype error = TypeError | RangeError

section \<open>JavaScript array and object primitives\<close>

text \<open>\<^verbatim>\<open>Array.prototype.indexOf\<close>: the first index of the element, or \<open>-1\<close>.\<close>

fun indexOf :: "'a list \<Rightarrow> 'a \<Rightarrow> int" where
  "indexOf [] x = -1"
| "indexOf (y # ys) x =
     (if y = x then 0 else (let i = indexOf ys x in if i < 0 then -1 else i + 1))"

text \<open>
  \<^verbatim>\<open>Array.prototype.splice_js(start, deleteCount, ...items)\<close> on integer arguments: a
  negative \<open>start\<close> counts from the end of the array, and both numbers are clamped
  to the array. The function returns the array after the call.
\<close>

definition actualStart :: "int \<Rightarrow> nat \<Rightarrow> nat" where
  "actualStart start len =
     (if start < 0 then nat (max (int len + start) 0) else nat (min start (int len)))"

definition splice_js :: "'a list \<Rightarrow> int \<Rightarrow> int \<Rightarrow> 'a list \<Rightarrow> 'a list" where
  "splice_js xs start deleteCount items =
     (let len = length xs;
          k = actualStart start len;
          d = nat (min (max deleteCount 0) (int len - int k))
      in take k xs @ items @ drop (k + d) xs)"

text \<open>\<^verbatim>\<open>Array.prototype.slice(start, end)\<close> on integer arguments.\<close>

definition slice :: "'a list \<Rightarrow> int \<Rightarrow> int \<Rightarrow> 'a list" where
  "slice xs start stop =
     (let len = length xs;
          k = actualStart start len;
          f = actualStart stop len
      in take (f - k) (drop k xs))"

text \<open>\<^verbatim>\<open>xs.slice(start)\<close>: the end defaults to the length.\<close>

definition slice_from :: "'a list \<Rightarrow> int \<Rightarrow> 'a list" where
  "slice_from xs start = slice xs start (int (length xs))"

text \<open>The empty object, and \<^verbatim>\<open>{ ...t, ...updates }\<close>.\<close>

definition emptyObj :: Task where
  "emptyObj = \<lparr>task_id = None, title = None, description = None, priority = None,
     dueDate = None, tags = None, createdAt = None, completedAt = None, columnId = None\<rparr>"

definition override :: "'a option \<Rightarrow> 'a option \<Rightarrow> 'a option" where
  "override old new = (case new of None \<Rightarrow> old | Some v \<Rightarrow> Some v)"

definition spread :: "Task \<Rightarrow> TaskUpdates \<Rightarrow> Task" where
  "spread t u = t\<lparr>
     title := override (title t) (u_title u),
     description := override (description t) (u_description u),
     priority := override (priority t) (u_priority u),
     dueDate := override (dueDate t) (u_dueDate u),
     tags := override (tags t) (u_tags u),
     completedAt := override (completedAt t) (u_completedAt u),
     columnId := override (columnId t) (u_columnId u)\<rparr>"

text \<open>\<^verbatim>\<open>...prev.tasks[taskId]\<close>: a missing task spreads as the empty object.\<close>

definition spreadTask :: "Task option \<Rightarrow> Task" where
  "spreadTask ot = (case ot of None \<Rightarrow> emptyObj | Some t \<Rightarrow> t)"

text \<open>
  Truthiness of a value of type \<^verbatim>\<open>string | null | undefined\<close>: only a non-empty
  string is truthy.
\<close>

definition truthy :: "string option option \<Rightarrow> bool" where
  "truthy v = (case v of Some (Some s) \<Rightarrow> s \<noteq> [] | _ \<Rightarrow> False)"

section \<open>The board store of \<^verbatim>\<open>useBoard\<close>: the updaters passed to \<^verbatim>\<open>setBoard\<close>\<close>

text \<open>
  Each operation of the hook calls \<^verbatim>\<open>pushHistory(board)\<close> and then
  \<^verbatim>\<open>setBoard(prev => ...)\<close>. The functions \<open>*_upd\<close> are those updaters. The values
  of \<^verbatim>\<open>uuidv4()\<close> and of each \<^verbatim>\<open>new Date().toISOString()\<close> are parameters. A
  \<^verbatim>\<open>TypeError\<close> raised by a property read on \<^verbatim>\<open>undefined\<close> is the result \<open>Inl TypeError\<close>.
\<close>

definition setTaskIds :: "BoardState \<Rightarrow> ColumnId \<Rightarrow> string list \<Rightarrow> Column" where
  "setTaskIds prev c ids = (columns prev c)\<lparr>taskIds := ids\<rparr>"

definition addTask_upd ::
  "string \<Rightarrow> string \<Rightarrow> string \<Rightarrow> ColumnId \<Rightarrow> string \<Rightarrow> string \<Rightarrow> Priority \<Rightarrow> string option
     \<Rightarrow> string list \<Rightarrow> BoardState \<Rightarrow> BoardState" where
  "addTask_upd newId nowCreated nowCompleted col ttl descr prio due tgs prev =
     (let task = \<lparr>task_id = Some newId, title = Some ttl, description = Some descr,
                  priority = Some prio, dueDate = Some due, tags = Some tgs,
                  createdAt = Some nowCreated,
                  completedAt = Some (if col = Done then Some nowCompleted else None),
                  columnId = Some col\<rparr>
      in prev\<lparr>tasks := (tasks prev)(newId \<mapsto> task),
               columns := (columns prev)(col := setTaskIds prev col (taskIds (columns prev col) @ [newId]))\<rparr>)"

definition updateTask_upd :: "string \<Rightarrow> TaskUpdates \<Rightarrow> BoardState \<Rightarrow> BoardState" where
  "updateTask_upd taskId updates prev =
     prev\<lparr>tasks := (tasks prev)(taskId \<mapsto> spread (spreadTask (tasks prev taskId)) updates)\<rparr>"

definition deleteTask_upd :: "string \<Rightarrow> BoardState \<Rightarrow> error + BoardState" where
  "deleteTask_upd taskId prev =
     (case tasks prev taskId of
        None \<Rightarrow> Inr prev
      | Some task \<Rightarrow>
          (case columnId task of
             None \<Rightarrow> Inl TypeError
           | Some c \<Rightarrow>
               Inr (prev\<lparr>tasks := (tasks prev)(taskId := None),
                          columns := (columns prev)(c := setTaskIds prev c
                             (filter (\<lambda>i. i \<noteq> taskId) (taskIds (columns prev c))))\<rparr>)))"

definition moveTask_upd ::
  "string \<Rightarrow> string \<Rightarrow> ColumnId \<Rightarrow> ColumnId \<Rightarrow> int \<Rightarrow> BoardState \<Rightarrow> error + BoardState" where
  "moveTask_upd now taskId sourceCol destCol destIndex prev =
     (let srcIds = taskIds (columns prev sourceCol);
          sourceTaskIds = splice_js srcIds (indexOf srcIds taskId) 1 [];
          destTaskIds = splice_js (if sourceCol = destCol then sourceTaskIds
                                else taskIds (columns prev destCol)) destIndex 0 [taskId]
      in if destCol = Done \<and> tasks prev taskId = None then Inl TypeError
         else
           (let old = completedAt (spreadTask (tasks prev taskId));
                updatedTask = (spreadTask (tasks prev taskId))\<lparr>
                   columnId := Some destCol,
                   completedAt :=
                     (if destCol = Done \<and> \<not> truthy old then Some (Some now)
                      else if destCol \<noteq> Done then Some None else old)\<rparr>;
                cols1 = (columns prev)(sourceCol := setTaskIds prev sourceCol
                           (if sourceCol = destCol then destTaskIds else sourceTaskIds));
                cols2 = (if sourceCol \<noteq> destCol
                         then cols1(destCol := setTaskIds prev destCol destTaskIds) else cols1)
            in Inr (prev\<lparr>tasks := (tasks prev)(taskId \<mapsto> updatedTask), columns := cols2\<rparr>)))"


subsection \<open>\<^verbatim>\<open>createDefaultBoard\<close> and the board of \<^verbatim>\<open>clearBoard\<close>\<close>

text \<open>
  The six calls of \<^verbatim>\<open>uuidv4()\<close> are the fields \<open>uuid1\<close> to \<open>uuid6\<close>, and
  \<open>isoAt k\<close> is \<^verbatim>\<open>new Date(Date.now() + 86400000 * k).toISOString()\<close>.
\<close>

record SeedEnv =
  uuid1 :: string
  uuid2 :: string
  uuid3 :: string
  uuid4 :: string
  uuid5 :: string
  uuid6 :: string
  isoAt :: "int \<Rightarrow> string"

text \<open>A sample task, with the identifier it is stored under (\<^verbatim>\<open>t.id\<close>).\<close>

definition mkTask ::
  "string \<Rightarrow> string \<Rightarrow> string \<Rightarrow> Priority \<Rightarrow> string option \<Rightarrow> string list \<Rightarrow> string
     \<Rightarrow> string option \<Rightarrow> ColumnId \<Rightarrow> string \<times> Task" where
  "mkTask i ttl descr prio due tgs created completed col =
     (i, \<lparr>task_id = Some i, title = Some ttl, description = Some descr, priority = Some prio,
          dueDate = Some due, tags = Some tgs, createdAt = Some created,
          completedAt = Some completed, columnId = Some col\<rparr>)"

definition sampleTasks :: "SeedEnv \<Rightarrow> (string \<times> Task) list" where
  "sampleTasks e =
     [mkTask (uuid1 e) ''Design homepage mockup''
        ''Create wireframes and high-fidelity mockups for the new landing page redesign.''
        High (Some (take 10 (isoAt e 2))) [''design'', ''ui''] (isoAt e (-3)) None Todo,
      mkTask (uuid2 e) ''Set up CI/CD pipeline''
        ''Configure GitHub Actions for automated testing and deployment.''
        Medium (Some (take 10 (isoAt e 5))) [''devops'', ''backend''] (isoAt e (-2)) None Todo,
      mkTask (uuid3 e) ''Write API documentation''
        ''Document all REST API endpoints with request/response examples.''
        Low (Some (take 10 (isoAt e 7))) [''docs''] (isoAt e (-1)) None Todo,
      mkTask (uuid4 e) ''Implement user authentication''
        ''Build login/signup flow with OAuth and JWT tokens.''
        High (Some (take 10 (isoAt e 1))) [''backend'', ''security''] (isoAt e (-5)) None InProgress,
      mkTask (uuid5 e) ''Optimize database queries''
        ''Review and optimize slow SQL queries identified in performance monitoring.''
        Medium (Some (take 10 (isoAt e (-1)))) [''backend'', ''performance''] (isoAt e (-4)) None
        InProgress,
      mkTask (uuid6 e) ''Setup project repository''
        ''Initialize repo with proper folder structure, linting, and README.''
        High None [''devops''] (isoAt e (-10)) (Some (isoAt e (-7))) Done]"

text \<open>\<^verbatim>\<open>sampleTasks.forEach(t => { tasks[t.id] = t; })\<close>: a later task overwrites.\<close>

fun assignAll :: "(string \<rightharpoonup> Task) \<Rightarrow> (string \<times> Task) list \<Rightarrow> (string \<rightharpoonup> Task)" where
  "assignAll m [] = m"
| "assignAll m ((i, t) # ts) = assignAll (m(i \<mapsto> t)) ts"

text \<open>\<^verbatim>\<open>sampleTasks.filter(t => t.columnId === c).map(t => t.id)\<close>\<close>

definition idsIn :: "ColumnId \<Rightarrow> (string \<times> Task) list \<Rightarrow> string list" where
  "idsIn c ts = map fst (filter (\<lambda>(i, t). columnId t = Some c) ts)"

definition createDefaultBoard :: "SeedEnv \<Rightarrow> BoardState" where
  "createDefaultBoard e =
     \<lparr>tasks = assignAll Map.empty (sampleTasks e),
      columns = (\<lambda>c. case c of
          Todo \<Rightarrow> \<lparr>col_id = Todo, col_title = ''To Do'', taskIds = idsIn Todo (sampleTasks e)\<rparr>
        | InProgress \<Rightarrow> \<lparr>col_id = InProgress, col_title = ''In Progress'',
                         taskIds = idsIn InProgress (sampleTasks e)\<rparr>
        | Done \<Rightarrow> \<lparr>col_id = Done, col_title = ''Done'', taskIds = idsIn Done (sampleTasks e)\<rparr>),
      columnOrder = [Todo, InProgress, Done]\<rparr>"

definition emptyBoard :: BoardState where
  "emptyBoard =
     \<lparr>tasks = Map.empty,
      columns = (\<lambda>c. case c of
          Todo \<Rightarrow> \<lparr>col_id = Todo, col_title = ''To Do'', taskIds = []\<rparr>
        | InProgress \<Rightarrow> \<lparr>col_id = InProgress, col_title = ''In Progress'', taskIds = []\<rparr>
        | Done \<Rightarrow> \<lparr>col_id = Done, col_title = ''Done'', taskIds = []\<rparr>),
      columnOrder = [Todo, InProgress, Done]\<rparr>"

section \<open>The hook state: board, undo history and redo stack\<close>

text \<open>
  The three \<^verbatim>\<open>useState\<close> cells of the hook. Every callback of the hook is made by a
  render and closes over the \<^verbatim>\<open>board\<close>, \<^verbatim>\<open>history\<close> and \<^verbatim>\<open>future\<close> of that render
  (\<^verbatim>\<open>useCallback(..., [board, pushHistory])\<close>), while a setter that is given a function
  applies it to the current cell, and the setters of one event handler are applied in
  the order of the calls. So every operation has two states as its last parameters:
  \<open>r\<close>, the state at the render that made the callback, and \<open>s\<close>, the state the call
  works on. They are the same for a call of the callback of the latest render. They
  differ for the second call in one event handler (\<^verbatim>\<open>handleSaveTask\<close> calls
  \<^verbatim>\<open>moveTask\<close> and then \<^verbatim>\<open>updateTask\<close>) and for a call from a timer that an earlier
  render set (\<^verbatim>\<open>sendMessage\<close> of the chatbot). Saving to \<^verbatim>\<open>localStorage\<close> is not part
  of the model.
\<close>

record Store =
  board :: BoardState
  history :: "BoardState list"
  future :: "BoardState list"

definition initStore :: "BoardState \<Rightarrow> Store" where
  "initStore b = \<lparr>board = b, history = [], future = []\<rparr>"

text \<open>\<^verbatim>\<open>setHistory(h => [...h.slice(-49), prev]); setFuture([])\<close>\<close>

definition pushHistory :: "BoardState \<Rightarrow> Store \<Rightarrow> Store" where
  "pushHistory prev s = s\<lparr>history := slice_from (history s) (-49) @ [prev], future := []\<rparr>"

text \<open>
  \<^verbatim>\<open>undo\<close> tests and reads the \<^verbatim>\<open>history\<close> of its closure and pushes the \<^verbatim>\<open>board\<close> of
  its closure; \<^verbatim>\<open>setFuture\<close> and \<^verbatim>\<open>setHistory\<close> are given functions. \<^verbatim>\<open>redo\<close> is the
  mirror image.
\<close>

definition undo :: "Store \<Rightarrow> Store \<Rightarrow> Store" where
  "undo r s =
     (if length (history r) = 0 then s
      else (let prev = history r ! (length (history r) - 1)
            in s\<lparr>future := future s @ [board r],
                 history := slice (history s) 0 (-1),
                 board := prev\<rparr>))"

definition redo :: "Store \<Rightarrow> Store \<Rightarrow> Store" where
  "redo r s =
     (if length (future r) = 0 then s
      else (let next = future r ! (length (future r) - 1)
            in s\<lparr>history := history s @ [board r],
                 future := slice (future s) 0 (-1),
                 board := next\<rparr>))"

definition canUndo :: "Store \<Rightarrow> bool" where
  "canUndo s = (length (history s) > 0)"

definition canRedo :: "Store \<Rightarrow> bool" where
  "canRedo s = (length (future s) > 0)"

text \<open>\<^verbatim>\<open>setBoard(upd)\<close>: \<open>upd\<close> gets the current board; an updater that throws gives the error.\<close>

definition setBoard :: "(BoardState \<Rightarrow> error + BoardState) \<Rightarrow> Store \<Rightarrow> error + Store" where
  "setBoard upd s = (case upd (board s) of Inl e \<Rightarrow> Inl e | Inr b \<Rightarrow> Inr (s\<lparr>board := b\<rparr>))"

text \<open>
  The six mutations: \<^verbatim>\<open>pushHistory(board)\<close> with the board of the closure, then
  \<^verbatim>\<open>setBoard(prev => ...)\<close>.
\<close>

definition addTask ::
  "string \<Rightarrow> string \<Rightarrow> string \<Rightarrow> ColumnId \<Rightarrow> string \<Rightarrow> string \<Rightarrow> Priority \<Rightarrow> string option
     \<Rightarrow> string list \<Rightarrow> Store \<Rightarrow> Store \<Rightarrow> error + Store" where
  "addTask newId nowCreated nowCompleted col ttl descr prio due tgs r s =
     setBoard (\<lambda>prev. Inr (addTask_upd newId nowCreated nowCompleted col ttl descr prio due tgs prev))
       (pushHistory (board r) s)"

definition updateTask :: "string \<Rightarrow> TaskUpdates \<Rightarrow> Store \<Rightarrow> Store \<Rightarrow> error + Store" where
  "updateTask taskId updates r s =
     setBoard (\<lambda>prev. Inr (updateTask_upd taskId updates prev)) (pushHistory (board r) s)"

definition deleteTask :: "string \<Rightarrow> Store \<Rightarrow> Store \<Rightarrow> error + Store" where
  "deleteTask taskId r s = setBoard (deleteTask_upd taskId) (pushHistory (board r) s)"

definition moveTask ::
  "string \<Rightarrow> string \<Rightarrow> ColumnId \<Rightarrow> ColumnId \<Rightarrow> int \<Rightarrow> Store \<Rightarrow> Store \<Rightarrow> error + Store" where
  "moveTask now taskId sourceCol destCol destIndex r s =
     setBoard (moveTask_upd now taskId sourceCol destCol destIndex) (pushHistory (board r) s)"

definition resetBoard :: "SeedEnv \<Rightarrow> Store \<Rightarrow> Store \<Rightarrow> error + Store" where
  "resetBoard e r s = setBoard (\<lambda>prev. Inr (createDefaultBoard e)) (pushHistory (board r) s)"

definition clearBoard :: "Store \<Rightarrow> Store \<Rightarrow> error + Store" where
  "clearBoard r s = setBoard (\<lambda>prev. Inr emptyBoard) (pushHistory (board r) s)"

text \<open>The six mutations as values.\<close>

datatype mutation =
    AddTask string string string ColumnId string string Priority "string option" "string list"
  | UpdateTask string TaskUpdates
  | DeleteTask string
  | MoveTask string string ColumnId ColumnId int
  | ResetBoard SeedEnv
  | ClearBoard

fun mutate :: "mutation \<Rightarrow> Store \<Rightarrow> Store \<Rightarrow> error + Store" where
  "mutate (AddTask newId nowCreated nowCompleted col ttl descr prio due tgs) r s =
     addTask newId nowCreated nowCompleted col ttl descr prio due tgs r s"
| "mutate (UpdateTask taskId updates) r s = updateTask taskId updates r s"
| "mutate (DeleteTask taskId) r s = deleteTask taskId r s"
| "mutate (MoveTask now taskId sourceCol destCol destIndex) r s =
     moveTask now taskId sourceCol destCol destIndex r s"
| "mutate (ResetBoard e) r s = resetBoard e r s"
| "mutate ClearBoard r s = clearBoard r s"

text \<open>
  A sequence of calls in which every call is one of the callback of the latest
  render: the closure holds the state the call works on.
\<close>

datatype action = Mutate mutation | Undo | Redo

fun act :: "action \<Rightarrow> Store \<Rightarrow> error + Store" where
  "act (Mutate m) s = mutate m s s"
| "act Undo s = Inr (undo s s)"
| "act Redo s = Inr (redo s s)"

fun run :: "action list \<Rightarrow> Store \<Rightarrow> error + Store" where
  "run [] s = Inr s"
| "run (a # as) s = (case act a s of Inl e \<Rightarrow> Inl e | Inr s' \<Rightarrow> run as s')"

subsection \<open>Sequences of board updates, and the invariant of the board\<close>

fun updater :: "mutation \<Rightarrow> BoardState \<Rightarrow> error + BoardState" where
  "updater (AddTask newId nowCreated nowCompleted col ttl descr prio due tgs) prev =
     Inr (addTask_upd newId nowCreated nowCompleted col ttl descr prio due tgs prev)"
| "updater (UpdateTask taskId updates) prev = Inr (updateTask_upd taskId updates prev)"
| "updater (DeleteTask taskId) prev = deleteTask_upd taskId prev"
| "updater (MoveTask now taskId sourceCol destCol destIndex) prev =
     moveTask_upd now taskId sourceCol destCol destIndex prev"
| "updater (ResetBoard e) prev = Inr (createDefaultBoard e)"
| "updater ClearBoard prev = Inr emptyBoard"

definition seedIds :: "SeedEnv \<Rightarrow> string list" where
  "seedIds e = [uuid1 e, uuid2 e, uuid3 e, uuid4 e, uuid5 e, uuid6 e]"

text \<open>
  Conditions on the arguments of a call, read on the board its updater receives, under
  which the invariant below is kept: \<^verbatim>\<open>uuidv4()\<close> gives an identifier that no task
  has; \<^verbatim>\<open>updateTask\<close> is called for a task of the board, and a \<^verbatim>\<open>columnId\<close> among the
  updates is the column the task is in; \<^verbatim>\<open>moveTask\<close> is called for a task of the board
  with its own column as the source, and any index. The call sites in \<^verbatim>\<open>App.tsx\<close> and
  \<^verbatim>\<open>Chatbot.tsx\<close> pass \<^verbatim>\<open>editingTask.columnId\<close>, \<^verbatim>\<open>task.columnId\<close> and
  \<^verbatim>\<open>source.droppableId\<close>, values of the render or of the moment a dialog was opened:
  they meet the conditions as long as those values are still the current ones.
\<close>

fun callerOk :: "mutation \<Rightarrow> BoardState \<Rightarrow> bool" where
  "callerOk (AddTask newId nowCreated nowCompleted col ttl descr prio due tgs) b =
     (tasks b newId = None)"
| "callerOk (UpdateTask taskId updates) b =
     (case tasks b taskId of
        None \<Rightarrow> False
      | Some t \<Rightarrow> u_columnId updates = None \<or> u_columnId updates = columnId t)"
| "callerOk (DeleteTask taskId) b = True"
| "callerOk (MoveTask now taskId sourceCol destCol destIndex) b =
     (case tasks b taskId of None \<Rightarrow> False | Some t \<Rightarrow> columnId t = Some sourceCol)"
| "callerOk (ResetBoard e) b = distinct (seedIds e)"
| "callerOk ClearBoard b = True"

fun runBoard :: "mutation list \<Rightarrow> BoardState \<Rightarrow> BoardState option" where
  "runBoard [] b = Some b"
| "runBoard (m # ms) b =
     (if callerOk m b
      then (case updater m b of Inl e \<Rightarrow> None | Inr b' \<Rightarrow> runBoard ms b')
      else None)"

text \<open>
  The invariant of the board: the lists have no duplicates, every listed identifier
  is a task of that column, and every task is listed in its column.
\<close>

definition boardInv :: "BoardState \<Rightarrow> bool" where
  "boardInv b \<longleftrightarrow>
     (\<forall>c. distinct (taskIds (columns b c))) \<and>
     (\<forall>c i. i \<in> set (taskIds (columns b c)) \<longrightarrow>
        (\<exists>t. tasks b i = Some t \<and> columnId t = Some c)) \<and>
     (\<forall>i t. tasks b i = Some t \<longrightarrow>
        (\<exists>c. columnId t = Some c \<and> i \<in> set (taskIds (columns b c))))"

subsection \<open>Observations of a result, and a concrete board\<close>

definition listOf :: "ColumnId \<Rightarrow> error + Store \<Rightarrow> error + string list" where
  "listOf c r = (case r of Inl e \<Rightarrow> Inl e | Inr s \<Rightarrow> Inr (taskIds (columns (board s) c)))"

definition taskOf :: "string \<Rightarrow> error + Store \<Rightarrow> error + Task option" where
  "taskOf i r = (case r of Inl e \<Rightarrow> Inl e | Inr s \<Rightarrow> Inr (tasks (board s) i))"

definition columnIdOf :: "string \<Rightarrow> error + Store \<Rightarrow> error + ColumnId option" where
  "columnIdOf i r =
     (case r of Inl e \<Rightarrow> Inl e
      | Inr s \<Rightarrow> Inr (case tasks (board s) i of None \<Rightarrow> None | Some t \<Rightarrow> columnId t))"

definition boardOf :: "error + Store \<Rightarrow> error + BoardState" where
  "boardOf r = (case r of Inl e \<Rightarrow> Inl e | Inr s \<Rightarrow> Inr (board s))"

definition historyOf :: "error + Store \<Rightarrow> error + BoardState list" where
  "historyOf r = (case r of Inl e \<Rightarrow> Inl e | Inr s \<Rightarrow> Inr (history s))"

definition futureOf :: "error + Store \<Rightarrow> error + BoardState list" where
  "futureOf r = (case r of Inl e \<Rightarrow> Inl e | Inr s \<Rightarrow> Inr (future s))"

definition invOf :: "error + Store \<Rightarrow> error + bool" where
  "invOf r = (case r of Inl e \<Rightarrow> Inl e | Inr s \<Rightarrow> Inr (boardInv (board s)))"

text \<open>
  Sequencing: \<open>andThen x f\<close> makes the call \<open>f\<close> on the state that \<open>x\<close> left, and
  \<open>fresh f\<close> is a call of the callback \<open>f\<close> of the latest render, whose closure holds
  the state the call works on. \<open>thenUndo x\<close> is \<^verbatim>\<open>undo\<close> called after the render
  that follows \<open>x\<close>.
\<close>

definition andThen :: "error + Store \<Rightarrow> (Store \<Rightarrow> error + Store) \<Rightarrow> error + Store" where
  "andThen x f = (case x of Inl e \<Rightarrow> Inl e | Inr s \<Rightarrow> f s)"

definition fresh :: "(Store \<Rightarrow> Store \<Rightarrow> error + Store) \<Rightarrow> Store \<Rightarrow> error + Store" where
  "fresh f s = f s s"

definition thenUndo :: "error + Store \<Rightarrow> error + Store" where
  "thenUndo x = (case x of Inl e \<Rightarrow> Inl e | Inr s \<Rightarrow> Inr (undo s s))"

definition demoIso :: "int \<Rightarrow> string" where
  "demoIso k =
     (let d = nat (15 + k)
      in ''2026-01-'' @ [char_of (48 + d div 10), char_of (48 + d mod 10)] @ ''T09:00:00.000Z'')"

definition demoEnv :: SeedEnv where
  "demoEnv = \<lparr>uuid1 = ''t1'', uuid2 = ''t2'', uuid3 = ''t3'', uuid4 = ''t4'', uuid5 = ''t5'',
     uuid6 = ''t6'', isoAt = demoIso\<rparr>"

definition demoStore :: Store where
  "demoStore = initStore (createDefaultBoard demoEnv)"

definition noUpdates :: TaskUpdates where
  "noUpdates = \<lparr>u_title = None, u_description = None, u_priority = None, u_dueDate = None,
     u_tags = None, u_completedAt = None, u_columnId = None\<rparr>"

text \<open>
  From the words of the specification of \<^verbatim>\<open>move\<close>, to compare with \<open>splice_js\<close>: the
  identifier is inserted at the index ``clamped to the valid insertion range''
  \<open>[0, length]\<close>.
\<close>

definition insertClamped :: "string list \<Rightarrow> int \<Rightarrow> string \<Rightarrow> string list" where
  "insertClamped xs i x =
     (let k = nat (max 0 (min i (int (length xs)))) in take k xs @ [x] @ drop k xs)"

section \<open>Strings and regular expressions of \<^verbatim>\<open>Chatbot.tsx\<close>\<close>

text \<open>
  A string is a list of UTF-16 code units; the model has the code units below 256,
  the characters U+0000 to U+00FF, and is exact on them. \<^verbatim>\<open>String.prototype.toLowerCase\<close>
  maps \<open>A\<close> to \<open>Z\<close> and U+00C0 to U+00DE without U+00D7, each to the character 32
  places later, and leaves every other character of the range as it is; the result
  has the length of the argument. White space (\<^verbatim>\<open>trim\<close>, \<^verbatim>\<open>\s\<close>) is tab, line feed,
  vertical tab, form feed, carriage return, space and the no-break space U+00A0. A
  word character (\<^verbatim>\<open>\b\<close>) is an ASCII letter, a digit or the underscore. In the reply
  texts of the chatbot a character above U+00FF is written \<open>[U+hhhh]\<close>.
\<close>

definition upperLatin1 :: string where
  "upperLatin1 =
     [CHR 0xC0, CHR 0xC1, CHR 0xC2, CHR 0xC3, CHR 0xC4, CHR 0xC5, CHR 0xC6, CHR 0xC7,
      CHR 0xC8, CHR 0xC9, CHR 0xCA, CHR 0xCB, CHR 0xCC, CHR 0xCD, CHR 0xCE, CHR 0xCF,
      CHR 0xD0, CHR 0xD1, CHR 0xD2, CHR 0xD3, CHR 0xD4, CHR 0xD5, CHR 0xD6, CHR 0xD8,
      CHR 0xD9, CHR 0xDA, CHR 0xDB, CHR 0xDC, CHR 0xDD, CHR 0xDE]"

definition lowerLatin1 :: string where
  "lowerLatin1 =
     [CHR 0xE0, CHR 0xE1, CHR 0xE2, CHR 0xE3, CHR 0xE4, CHR 0xE5, CHR 0xE6, CHR 0xE7,
      CHR 0xE8, CHR 0xE9, CHR 0xEA, CHR 0xEB, CHR 0xEC, CHR 0xED, CHR 0xEE, CHR 0xEF,
      CHR 0xF0, CHR 0xF1, CHR 0xF2, CHR 0xF3, CHR 0xF4, CHR 0xF5, CHR 0xF6, CHR 0xF8,
      CHR 0xF9, CHR 0xFA, CHR 0xFB, CHR 0xFC, CHR 0xFD, CHR 0xFE]"

definition toLowerChar :: "char \<Rightarrow> char" where
  "toLowerChar c =
     (case map_of (zip (''ABCDEFGHIJKLMNOPQRSTUVWXYZ'' @ upperLatin1)
                       (''abcdefghijklmnopqrstuvwxyz'' @ lowerLatin1)) c of
        None \<Rightarrow> c | Some l \<Rightarrow> l)"

definition toLowerCase :: "string \<Rightarrow> string" where
  "toLowerCase s = map toLowerChar s"

definition isSpace :: "char \<Rightarrow> bool" where
  "isSpace c \<longleftrightarrow>
     c \<in> set [CHR 0x09, CHR 0x0A, CHR 0x0B, CHR 0x0C, CHR 0x0D, CHR '' '', CHR 0xA0]"

definition isDigit :: "char \<Rightarrow> bool" where
  "isDigit c \<longleftrightarrow> c \<in> set ''0123456789''"

definition isWordChar :: "char \<Rightarrow> bool" where
  "isWordChar c \<longleftrightarrow>
     c \<in> set ''abcdefghijklmnopqrstuvwxyzABCDEFGHIJKLMNOPQRSTUVWXYZ0123456789_''"

text \<open>\<^verbatim>\<open>String.prototype.trim\<close>.\<close>

definition trim :: "string \<Rightarrow> string" where
  "trim s = rev (dropWhile isSpace (rev (dropWhile isSpace s)))"

text \<open>\<^verbatim>\<open>s.includes(t)\<close>: \<open>t\<close> is a substring of \<open>s\<close>.\<close>

fun startsWith :: "string \<Rightarrow> string \<Rightarrow> bool" where
  "startsWith s [] = True"
| "startsWith [] (c # cs) = False"
| "startsWith (x # xs) (c # cs) = (x = c \<and> startsWith xs cs)"

fun includes_str :: "string \<Rightarrow> string \<Rightarrow> bool" where
  "includes_str [] t = (t = [])"
| "includes_str (x # xs) t = (startsWith (x # xs) t \<or> includes_str xs t)"

text \<open>
  \<^verbatim>\<open>s.split(/X+/)\<close> for a class \<open>X\<close> of characters (\<^verbatim>\<open>/\s+/\<close>, \<^verbatim>\<open>/[,;&]+/\<close>): the pieces
  between the maximal runs of \<open>X\<close>; a run at either end gives an empty piece there.
\<close>

fun splitRuns :: "(char \<Rightarrow> bool) \<Rightarrow> bool \<Rightarrow> string \<Rightarrow> string \<Rightarrow> string list" where
  "splitRuns P inRun cur [] = [rev cur]"
| "splitRuns P inRun cur (x # xs) =
     (if P x then (if inRun then splitRuns P True cur xs else rev cur # splitRuns P True [] xs)
      else splitRuns P False (x # cur) xs)"

definition splitOn :: "(char \<Rightarrow> bool) \<Rightarrow> string \<Rightarrow> string list" where
  "splitOn P s = splitRuns P False [] s"

text \<open>\<^verbatim>\<open>xs.join(sep)\<close>.\<close>

fun join :: "string \<Rightarrow> string list \<Rightarrow> string" where
  "join sep [] = []"
| "join sep [x] = x"
| "join sep (x # y # ys) = x @ sep @ join sep (y # ys)"

subsection \<open>A backtracking matcher for the regular expressions of the source\<close>

text \<open>
  The syntax the source uses: characters, \<^verbatim>\<open>.\<close>, \<^verbatim>\<open>\s\<close>, \<^verbatim>\<open>\d\<close>, classes and negated
  classes, \<^verbatim>\<open>^\<close>, \<^verbatim>\<open>$\<close>, \<^verbatim>\<open>\b\<close>, sequence, alternation, the greedy \<^verbatim>\<open>?\<close> and \<^verbatim>\<open>*\<close>, the
  lazy \<^verbatim>\<open>*?\<close>, and numbered capturing groups. \<^verbatim>\<open>r+\<close> is \<^verbatim>\<open>rr*\<close> and \<^verbatim>\<open>r+?\<close> is \<^verbatim>\<open>rr*?\<close>.
\<close>

datatype rx =
    Ch char | Dot | Space | Digit | OneOf string | NoneOf string
  | Eps | Bol | Eol | Wordb
  | Seq rx rx | Alt rx rx | Opt rx | Star rx | LazyStar rx | Grp nat rx

text \<open>
  A state of the matcher: the character before the position (none at the start), the
  rest of the input, and the captures so far, the latest first.
\<close>

type_synonym mstate = "char option \<times> string \<times> (nat \<times> string) list"

definition single :: "(char \<Rightarrow> bool) \<Rightarrow> mstate \<Rightarrow> mstate list" where
  "single P st =
     (case st of (p, rest, cs) \<Rightarrow>
        (case rest of [] \<Rightarrow> [] | x # xs \<Rightarrow> if P x then [(Some x, xs, cs)] else []))"

definition wordAt :: "char option \<Rightarrow> bool" where
  "wordAt p = (case p of None \<Rightarrow> False | Some c \<Rightarrow> isWordChar c)"

definition nextChar :: "string \<Rightarrow> char option" where
  "nextChar rest = (case rest of [] \<Rightarrow> None | x # xs \<Rightarrow> Some x)"

definition progress :: "string \<Rightarrow> mstate \<Rightarrow> bool" where
  "progress rest st = (case st of (p', rest', cs') \<Rightarrow> length rest' < length rest)"

definition capture :: "nat \<Rightarrow> string \<Rightarrow> mstate \<Rightarrow> mstate" where
  "capture i rest st =
     (case st of (p', rest', cs') \<Rightarrow> (p', rest', (i, take (length rest - length rest') rest) # cs'))"

text \<open>
  \<open>rmatch ic r st\<close> lists the states after every way to match \<open>r\<close> at \<open>st\<close>, in the
  order in which a backtracking matcher tries them, so the head of the list is the
  match that JavaScript reports. \<open>ic\<close> is the flag \<^verbatim>\<open>i\<close>: ECMAScript compares the
  upper-case forms of the two characters, which on the characters below 256 agree
  exactly when the lower-case forms do (the upper-case forms of U+00B5 and U+00FF lie
  above the range and are the image of no other character of it, and U+00DF has
  none of one code unit). The classes modelled here hold no letter. An iteration of a
  star that consumes nothing is not continued, as in ECMAScript.
\<close>

function rmatch :: "bool \<Rightarrow> rx \<Rightarrow> mstate \<Rightarrow> mstate list" where
  "rmatch ic (Ch c) st =
     single (\<lambda>x. if ic then toLowerChar x = toLowerChar c else x = c) st"
| "rmatch ic Dot st = single (\<lambda>x. x \<noteq> CHR 0x0A \<and> x \<noteq> CHR 0x0D) st"
| "rmatch ic Space st = single isSpace st"
| "rmatch ic Digit st = single isDigit st"
| "rmatch ic (OneOf cs) st = single (\<lambda>x. x \<in> set cs) st"
| "rmatch ic (NoneOf cs) st = single (\<lambda>x. x \<notin> set cs) st"
| "rmatch ic Eps st = [st]"
| "rmatch ic Bol (p, rest, cs) = (if p = None then [(p, rest, cs)] else [])"
| "rmatch ic Eol (p, rest, cs) = (if rest = [] then [(p, rest, cs)] else [])"
| "rmatch ic Wordb (p, rest, cs) =
     (if wordAt p \<noteq> wordAt (nextChar rest) then [(p, rest, cs)] else [])"
| "rmatch ic (Seq a b) st = concat (map (rmatch ic b) (rmatch ic a st))"
| "rmatch ic (Alt a b) st = rmatch ic a st @ rmatch ic b st"
| "rmatch ic (Opt a) st = rmatch ic a st @ [st]"
| "rmatch ic (Star a) (p, rest, cs) =
     concat (map (rmatch ic (Star a)) (filter (progress rest) (rmatch ic a (p, rest, cs))))
       @ [(p, rest, cs)]"
| "rmatch ic (LazyStar a) (p, rest, cs) =
     (p, rest, cs) #
       concat (map (rmatch ic (LazyStar a)) (filter (progress rest) (rmatch ic a (p, rest, cs))))"
| "rmatch ic (Grp i a) (p, rest, cs) = map (capture i rest) (rmatch ic a (p, rest, cs))"
  by pat_completeness auto
termination
  by (relation "inv_image (less_than <*lex*> less_than)
        (\<lambda>(ic, r, (p, rest, cs)). (size r, length rest))")
     (auto simp: progress_def)

text \<open>
  \<^verbatim>\<open>RegExp.prototype.exec\<close> without the flag \<^verbatim>\<open>g\<close>: the first position with a match.
  A match is its index, its text, its captures and the input after it.
\<close>

type_synonym jsmatch = "nat \<times> string \<times> (nat \<times> string) list \<times> string"

fun execFrom :: "bool \<Rightarrow> rx \<Rightarrow> char option \<Rightarrow> string \<Rightarrow> nat \<Rightarrow> jsmatch option" where
  "execFrom ic r prev [] k =
     (case rmatch ic r (prev, [], []) of
        [] \<Rightarrow> None
      | (p', rest', cs) # _ \<Rightarrow> Some (k, [], cs, rest'))"
| "execFrom ic r prev (x # xs) k =
     (case rmatch ic r (prev, x # xs, []) of
        [] \<Rightarrow> execFrom ic r (Some x) xs (Suc k)
      | (p', rest', cs) # _ \<Rightarrow>
          Some (k, take (length (x # xs) - length rest') (x # xs), cs, rest'))"

definition exec :: "bool \<Rightarrow> rx \<Rightarrow> string \<Rightarrow> jsmatch option" where
  "exec ic r s = execFrom ic r None s 0"

text \<open>A match is truthy; \<^verbatim>\<open>null\<close> is not.\<close>

definition matches :: "bool \<Rightarrow> rx \<Rightarrow> string \<Rightarrow> bool" where
  "matches ic r s = (case exec ic r s of None \<Rightarrow> False | Some m \<Rightarrow> True)"

text \<open>\<^verbatim>\<open>m[i]\<close>; \<open>None\<close> is \<^verbatim>\<open>undefined\<close>, a group that took no part in the match.\<close>

definition group :: "nat \<Rightarrow> jsmatch \<Rightarrow> string option" where
  "group i m = (case m of (k, txt, cs, rest) \<Rightarrow> map_of cs i)"

text \<open>\<^verbatim>\<open>s.replace(r, '')\<close> without the flag \<^verbatim>\<open>g\<close>: the first match is cut out.\<close>

definition removeFirst :: "bool \<Rightarrow> rx \<Rightarrow> string \<Rightarrow> string" where
  "removeFirst ic r s =
     (case exec ic r s of None \<Rightarrow> s | Some (k, txt, cs, rest) \<Rightarrow> take k s @ rest)"

text \<open>
  \<^verbatim>\<open>s.replace(r, '')\<close> with the flag \<^verbatim>\<open>g\<close>: every match is cut out; after an empty
  match the search goes on one character later.
\<close>

function removeAllFrom :: "bool \<Rightarrow> rx \<Rightarrow> char option \<Rightarrow> string \<Rightarrow> string" where
  "removeAllFrom ic r prev rest =
     (case rmatch ic r (prev, rest, []) of
        (p', rest', cs) # _ \<Rightarrow>
          (if length rest' < length rest then removeAllFrom ic r p' rest'
           else (case rest of [] \<Rightarrow> [] | x # xs \<Rightarrow> x # removeAllFrom ic r (Some x) xs))
      | [] \<Rightarrow> (case rest of [] \<Rightarrow> [] | x # xs \<Rightarrow> x # removeAllFrom ic r (Some x) xs))"
  by pat_completeness auto
termination
  by (relation "measure (\<lambda>(ic, r, prev, rest). length rest)") auto

definition removeAll_rx :: "bool \<Rightarrow> rx \<Rightarrow> string \<Rightarrow> string" where
  "removeAll_rx ic r s = removeAllFrom ic r None s"

text \<open>Shorthands to write the regular expressions of the source.\<close>

fun str :: "string \<Rightarrow> rx" where
  "str [] = Eps"
| "str [c] = Ch c"
| "str (c # d # cs) = Seq (Ch c) (str (d # cs))"

fun alts :: "rx list \<Rightarrow> rx" where
  "alts [] = Eps"
| "alts [r] = r"
| "alts (r # q # rs) = Alt r (alts (q # rs))"

fun seqs :: "rx list \<Rightarrow> rx" where
  "seqs [] = Eps"
| "seqs [r] = r"
| "seqs (r # q # rs) = Seq r (seqs (q # rs))"

definition words :: "string list \<Rightarrow> rx" where
  "words ws = alts (map str ws)"

definition Plus :: "rx \<Rightarrow> rx" where
  "Plus r = Seq r (Star r)"

definition LazyPlus :: "rx \<Rightarrow> rx" where
  "LazyPlus r = Seq r (LazyStar r)"

definition quoteChars :: string where
  "quoteChars = [CHR 0x22, CHR 0x27]"

section \<open>The task matcher \<^verbatim>\<open>findTaskInMessage\<close>\<close>

text \<open>
  The chatbot reads the board through \<^verbatim>\<open>Object.values(board.tasks)\<close>, an array of the
  declared type \<^verbatim>\<open>Task[]\<close>. The model takes that array, in the order in which the
  engine enumerates the properties; its elements have every field of the interface.
\<close>

record TaskView =
  v_id :: string
  v_title :: string
  v_description :: string
  v_priority :: Priority
  v_dueDate :: "string option"
  v_tags :: "string list"
  v_createdAt :: string
  v_completedAt :: "string option"
  v_columnId :: ColumnId

text \<open>
  \<^verbatim>\<open>Array.prototype.sort(cmp)\<close> is stable; for a consistent comparator every stable
  sort gives the list that this insertion sort gives. An element goes before the first
  element that does not compare below it.
\<close>

fun insertBy :: "('a \<Rightarrow> 'a \<Rightarrow> rat) \<Rightarrow> 'a \<Rightarrow> 'a list \<Rightarrow> 'a list" where
  "insertBy cmp x [] = [x]"
| "insertBy cmp x (y # ys) = (if cmp x y \<le> 0 then x # y # ys else y # insertBy cmp x ys)"

definition sortBy :: "('a \<Rightarrow> 'a \<Rightarrow> rat) \<Rightarrow> 'a list \<Rightarrow> 'a list" where
  "sortBy cmp xs = foldr (insertBy cmp) xs []"

subsection \<open>Numbers: IEEE 754 doubles as the rationals they denote\<close>

text \<open>
  A JavaScript number is modelled by the rational it denotes, and \<open>fl\<close> rounds a
  rational to the nearest double, ties to even, with 53 significant bits. Division and
  multiplication of doubles are the exact operation followed by \<open>fl\<close>, and a decimal
  literal is \<open>fl\<close> of its value. The numbers of the matcher lie between \<open>0\<close> and \<open>1.2\<close>,
  far from overflow and from the subnormal range, which \<open>fl\<close> does not model.
\<close>

function bitlength :: "int \<Rightarrow> nat" where
  "bitlength n = (if n \<le> 0 then 0 else Suc (bitlength (n div 2)))"
  by pat_completeness auto
termination
  by (relation "measure nat") auto

definition pow2 :: "int \<Rightarrow> rat" where
  "pow2 e = (if 0 \<le> e then 2 ^ nat e else 1 / 2 ^ nat (- e))"

text \<open>\<open>ilog2 x\<close> is the exponent \<open>e\<close> with \<open>2^e \<le> x < 2^(e+1)\<close>, for \<open>x > 0\<close>.\<close>

definition ilog2 :: "rat \<Rightarrow> int" where
  "ilog2 x =
     (case quotient_of x of (p, q) \<Rightarrow>
        (let d = int (bitlength p) - int (bitlength q)
         in if pow2 d \<le> x then d else d - 1))"

definition roundHalfEven :: "rat \<Rightarrow> int" where
  "roundHalfEven x =
     (let f = \<lfloor>x\<rfloor>; d = x - of_int f
      in if d < 1 / 2 then f else if 1 / 2 < d then f + 1 else if even f then f else f + 1)"

definition fl :: "rat \<Rightarrow> rat" where
  "fl x =
     (if x = 0 then 0
      else (let a = \<bar>x\<bar>; u = pow2 (ilog2 a - 52); r = of_int (roundHalfEven (a / u)) * u
            in if x < 0 then - r else r))"

subsection \<open>The three stages\<close>

type_synonym found = "TaskView option \<times> TaskView list"

definition quotedRx :: rx where
  "quotedRx = seqs [OneOf quoteChars, Grp 1 (Plus (NoneOf quoteChars)), OneOf quoteChars]"

text \<open>
  The quoted stage; \<open>None\<close> when it does not decide (no quoted text, or no title
  related to it). Group 1 takes part in every match of \<open>quotedRx\<close>.
\<close>

definition quotedStage :: "string \<Rightarrow> TaskView list \<Rightarrow> found option" where
  "quotedStage message allTasks =
     (case exec False quotedRx message of
        None \<Rightarrow> None
      | Some m \<Rightarrow>
          (case group 1 m of
             None \<Rightarrow> None
           | Some g \<Rightarrow>
               (let q = toLowerCase g
                in case find (\<lambda>t. toLowerCase (v_title t) = q) allTasks of
                     Some exact \<Rightarrow> Some (Some exact, [])
                   | None \<Rightarrow>
                       (let partial = filter (\<lambda>t. includes_str (toLowerCase (v_title t)) q
                                               \<or> includes_str q (toLowerCase (v_title t))) allTasks
                        in if length partial = 1 then Some (Some (partial ! 0), [])
                           else if length partial > 1 then Some (None, slice partial 0 5)
                           else None))))"

definition sortedByLength :: "TaskView list \<Rightarrow> TaskView list" where
  "sortedByLength allTasks =
     sortBy (\<lambda>a b. of_nat (length (v_title b)) - of_nat (length (v_title a))) allTasks"

definition substringStage :: "string \<Rightarrow> TaskView list \<Rightarrow> TaskView option" where
  "substringStage lower allTasks =
     find (\<lambda>task. let titleLower = toLowerCase (v_title task)
                   in length titleLower \<ge> 3 \<and> includes_str lower titleLower)
       (sortedByLength allTasks)"

definition stopWords :: "string list" where
  "stopWords = [''create'', ''add'', ''make'', ''new'', ''task'', ''move'', ''delete'', ''remove'',
    ''change'', ''set'', ''update'', ''edit'', ''modify'', ''rename'', ''complete'', ''finish'',
    ''start'', ''begin'',
    ''the'', ''a'', ''an'', ''to'', ''from'', ''of'', ''for'', ''with'', ''in'', ''on'', ''at'', ''by'',
    ''priority'', ''high'', ''medium'', ''low'', ''due'', ''date'', ''tag'', ''tags'', ''title'', ''name'',
    ''description'', ''desc'', ''details'', ''column'', ''status'', ''todo'', ''progress'', ''done'',
    ''please'', ''can'', ''you'', ''could'', ''would'', ''want'', ''need'', ''like'', ''it'', ''its'',
    ''and'', ''or'', ''but'', ''is'', ''are'', ''was'', ''were'', ''be'', ''been'', ''being'', ''my'',
    ''this'', ''that'']"

definition messageWords :: "string \<Rightarrow> string list" where
  "messageWords lower =
     filter (\<lambda>w. length w > 1 \<and> w \<notin> set stopWords) (splitOn isSpace lower)"

record Scored =
  s_task :: TaskView
  s_score :: rat
  s_matchCount :: nat

definition scoreTask :: "string list \<Rightarrow> TaskView \<Rightarrow> Scored" where
  "scoreTask mws task =
     (let titleWords = filter (\<lambda>w. length w > 1) (splitOn isSpace (toLowerCase (v_title task)));
          matchCount = length (filter (\<lambda>tw. list_ex (\<lambda>mw. tw = mw \<or> includes_str tw mw
                                                           \<or> includes_str mw tw) mws) titleWords);
          score = (if length titleWords > 0
                   then fl (of_nat matchCount / of_nat (length titleWords)) else 0)
      in \<lparr>s_task = task, s_score = score, s_matchCount = matchCount\<rparr>)"

text \<open>
  \<^verbatim>\<open>b.score - a.score || b.matchCount - a.matchCount\<close>. Only the sign of the result is
  used, and the rounded difference of two doubles has the sign of the exact one.
\<close>

definition byScore :: "Scored \<Rightarrow> Scored \<Rightarrow> rat" where
  "byScore a b =
     (if s_score b - s_score a \<noteq> 0 then s_score b - s_score a
      else of_int (int (s_matchCount b) - int (s_matchCount a)))"

definition scored :: "string \<Rightarrow> TaskView list \<Rightarrow> Scored list" where
  "scored lower allTasks =
     sortBy byScore
       (filter (\<lambda>s. s_score s > fl (3 / 10) \<or> s_matchCount s \<ge> 2)
          (map (scoreTask (messageWords lower)) allTasks))"

definition overlapStage :: "string \<Rightarrow> TaskView list \<Rightarrow> found" where
  "overlapStage lower allTasks =
     (let sc = scored lower allTasks
      in if length sc = 0 then (None, [])
         else if length sc = 1 then (Some (s_task (sc ! 0)), [])
         else if s_score (sc ! 0) \<ge> fl (3 / 5)
                 \<and> s_score (sc ! 0) > fl (s_score (sc ! 1) * fl (6 / 5))
         then (Some (s_task (sc ! 0)), [])
         else (None, map s_task (slice sc 0 5)))"

definition findTaskInMessage :: "string \<Rightarrow> TaskView list \<Rightarrow> found" where
  "findTaskInMessage message allTasks =
     (if length allTasks = 0 then (None, [])
      else (let lower = toLowerCase message
            in case quotedStage message allTasks of
                 Some r \<Rightarrow> r
               | None \<Rightarrow>
                   (case substringStage lower allTasks of
                      Some task \<Rightarrow> (Some task, [])
                    | None \<Rightarrow> overlapStage lower allTasks)))"

definition demoTask :: "string \<Rightarrow> string \<Rightarrow> TaskView" where
  "demoTask i ttl =
     \<lparr>v_id = i, v_title = ttl, v_description = [], v_priority = Medium, v_dueDate = None,
      v_tags = [], v_createdAt = ''2026-01-15T09:00:00.000Z'', v_completedAt = None,
      v_columnId = Todo\<rparr>"

section \<open>The date phrase resolver \<^verbatim>\<open>parseNaturalDate\<close>\<close>

text \<open>
  A \<^verbatim>\<open>Date\<close> is its time value, the milliseconds since 1970-01-01T00:00:00Z; \<open>None\<close> is
  the invalid date, whose time value is \<^verbatim>\<open>NaN\<close>. The environment of a call: the time value
  of \<^verbatim>\<open>new Date()\<close>, the offset of local time from UTC in milliseconds (the model is for
  a time zone with a constant offset), and the result of \<^verbatim>\<open>new Date(s)\<close> on a string,
  which ECMAScript leaves to the implementation for strings that are not in its date
  format.
\<close>

record DateEnv =
  nowMs :: int
  tzaMs :: int
  dateParse :: "string \<Rightarrow> int option"

definition msPerDay :: int where
  "msPerDay = 86400000"

text \<open>The proleptic Gregorian calendar: days since 1970-01-01 to year, month, day and back.\<close>

definition civilFromDays :: "int \<Rightarrow> int \<times> int \<times> int" where
  "civilFromDays z0 =
     (let z = z0 + 719468;
          era = z div 146097;
          doe = z - era * 146097;
          yoe = (doe - doe div 1460 + doe div 36524 - doe div 146096) div 365;
          doy = doe - (365 * yoe + yoe div 4 - yoe div 100);
          mp = (5 * doy + 2) div 153;
          d = doy - (153 * mp + 2) div 5 + 1;
          m = (if mp < 10 then mp + 3 else mp - 9);
          y = yoe + era * 400
      in (if m \<le> 2 then y + 1 else y, m, d))"

definition daysFromCivil :: "int \<Rightarrow> int \<Rightarrow> int \<Rightarrow> int" where
  "daysFromCivil y0 m d =
     (let y = (if m \<le> 2 then y0 - 1 else y0);
          era = y div 400;
          yoe = y - era * 400;
          doy = (153 * (if m > 2 then m - 3 else m + 9) + 2) div 5 + d - 1;
          doe = yoe * 365 + yoe div 4 - yoe div 100 + doy
      in era * 146097 + doe - 719468)"

text \<open>\<^verbatim>\<open>TimeClip\<close>: a time value beyond 100,000,000 days from the epoch is \<^verbatim>\<open>NaN\<close>.\<close>

definition timeClip :: "int \<Rightarrow> int option" where
  "timeClip t = (if \<bar>t\<bar> \<le> 8640000000000000 then Some t else None)"

definition localDay :: "DateEnv \<Rightarrow> int \<Rightarrow> int" where
  "localDay env t = (t + tzaMs env) div msPerDay"

definition timeInDay :: "DateEnv \<Rightarrow> int \<Rightarrow> int" where
  "timeInDay env t = (t + tzaMs env) mod msPerDay"

text \<open>\<^verbatim>\<open>d.setHours(0, 0, 0, 0)\<close>: midnight of the local day, as a time value.\<close>

definition setHours0 :: "DateEnv \<Rightarrow> int \<Rightarrow> int" where
  "setHours0 env t = localDay env t * msPerDay - tzaMs env"

definition getFullYear :: "DateEnv \<Rightarrow> int \<Rightarrow> int" where
  "getFullYear env t = (case civilFromDays (localDay env t) of (y, m, d) \<Rightarrow> y)"

text \<open>\<^verbatim>\<open>getMonth\<close> counts from 0.\<close>

definition getMonth :: "DateEnv \<Rightarrow> int \<Rightarrow> int" where
  "getMonth env t = (case civilFromDays (localDay env t) of (y, m, d) \<Rightarrow> m - 1)"

definition getDate :: "DateEnv \<Rightarrow> int \<Rightarrow> int" where
  "getDate env t = (case civilFromDays (localDay env t) of (y, m, d) \<Rightarrow> d)"

text \<open>\<^verbatim>\<open>getDay\<close>: 0 is Sunday; 1970-01-01 was a Thursday.\<close>

definition getDay :: "DateEnv \<Rightarrow> int \<Rightarrow> int" where
  "getDay env t = (localDay env t + 4) mod 7"

text \<open>
  \<^verbatim>\<open>MakeDay(year, month, date)\<close> with \<open>month\<close> counted from 0 and of any size, and any
  \<open>date\<close>: the day number of the first of the month, plus \<open>date - 1\<close>.
\<close>

definition makeDay :: "int \<Rightarrow> int \<Rightarrow> int \<Rightarrow> int" where
  "makeDay y mo dt = daysFromCivil (y + mo div 12) (mo mod 12 + 1) 1 + dt - 1"

definition setDate :: "DateEnv \<Rightarrow> int \<Rightarrow> int \<Rightarrow> int option" where
  "setDate env t dt =
     timeClip (makeDay (getFullYear env t) (getMonth env t) dt * msPerDay
               + timeInDay env t - tzaMs env)"

definition setMonth :: "DateEnv \<Rightarrow> int \<Rightarrow> int \<Rightarrow> int option" where
  "setMonth env t mo =
     timeClip (makeDay (getFullYear env t) mo (getDate env t) * msPerDay
               + timeInDay env t - tzaMs env)"

definition digitChar :: "int \<Rightarrow> char" where
  "digitChar d = ''0123456789'' ! nat d"

fun pad :: "nat \<Rightarrow> int \<Rightarrow> string" where
  "pad 0 n = []"
| "pad (Suc k) n = pad k (n div 10) @ [digitChar (n mod 10)]"

text \<open>
  \<^verbatim>\<open>toISOString\<close> of a valid date: the UTC fields; a year outside 0 to 9999 is written
  with a sign and six digits.
\<close>

definition toISOString :: "int \<Rightarrow> string" where
  "toISOString t =
     (case civilFromDays (t div msPerDay) of (y, m, d) \<Rightarrow>
        (let ms = t mod msPerDay
         in (if 0 \<le> y \<and> y \<le> 9999 then pad 4 y
             else (if y < 0 then ''-'' else ''+'') @ pad 6 \<bar>y\<bar>)
            @ ''-'' @ pad 2 m @ ''-'' @ pad 2 d @ ''T'' @ pad 2 (ms div 3600000) @ '':''
            @ pad 2 (ms div 60000 mod 60) @ '':'' @ pad 2 (ms div 1000 mod 60) @ ''.''
            @ pad 3 (ms mod 1000) @ ''Z''))"

text \<open>\<^verbatim>\<open>d.toISOString().slice(0, 10)\<close>; \<^verbatim>\<open>toISOString\<close> throws on an invalid date.\<close>

definition isoSlice10 :: "int option \<Rightarrow> error + string option" where
  "isoSlice10 d = (case d of None \<Rightarrow> Inl RangeError | Some t \<Rightarrow> Inr (Some (take 10 (toISOString t))))"

text \<open>
  \<^verbatim>\<open>parseInt\<close> of a string of digits. A number of days that a double cannot hold
  exactly is far outside the range of \<open>timeClip\<close>, so the exact integer gives the same
  results.
\<close>

fun digitValue :: "char \<Rightarrow> int" where
  "digitValue c = indexOf ''0123456789'' c"

definition parseInt :: "string \<Rightarrow> int" where
  "parseInt s = foldl (\<lambda>a c. 10 * a + digitValue c) 0 s"

text \<open>A group that takes part in every match of its regular expression.\<close>

definition theGroup :: "nat \<Rightarrow> jsmatch \<Rightarrow> string" where
  "theGroup i m = (case group i m of None \<Rightarrow> [] | Some g \<Rightarrow> g)"

definition inDaysRx :: rx where
  "inDaysRx = seqs [str ''in'', Plus Space, Grp 1 (Plus Digit), Plus Space, str ''day'']"

definition inWeeksRx :: rx where
  "inWeeksRx = seqs [str ''in'', Plus Space, Grp 1 (Plus Digit), Plus Space, str ''week'']"

definition nextDayRx :: rx where
  "nextDayRx = seqs [Opt (Grp 1 (seqs [str ''next'', Plus Space])),
     Grp 2 (words [''monday'', ''tuesday'', ''wednesday'', ''thursday'', ''friday'', ''saturday'',
                   ''sunday''])]"

definition dayNames :: "string list" where
  "dayNames = [''sunday'', ''monday'', ''tuesday'', ''wednesday'', ''thursday'', ''friday'',
     ''saturday'']"

definition parseNaturalDate :: "DateEnv \<Rightarrow> string \<Rightarrow> error + string option" where
  "parseNaturalDate env txt =
     (let lower = trim (toLowerCase txt);
          today = setHours0 env (nowMs env)
      in if lower = ''today'' \<or> lower = ''end of day'' \<or> lower = ''eod''
         then isoSlice10 (Some today)
         else if lower = ''tomorrow'' \<or> lower = ''tmr'' \<or> lower = ''tmrw''
         then isoSlice10 (setDate env today (getDate env today + 1))
         else if lower = ''next week''
         then isoSlice10 (setDate env today (getDate env today + 7))
         else if lower = ''next month''
         then isoSlice10 (setMonth env today (getMonth env today + 1))
         else
           (case exec False inDaysRx lower of
              Some inDays \<Rightarrow>
                isoSlice10 (setDate env today (getDate env today + parseInt (theGroup 1 inDays)))
            | None \<Rightarrow>
           (case exec False inWeeksRx lower of
              Some inWeeks \<Rightarrow>
                isoSlice10 (setDate env today (getDate env today + parseInt (theGroup 1 inWeeks) * 7))
            | None \<Rightarrow>
           (case exec False nextDayRx lower of
              Some nextDayMatch \<Rightarrow>
                (let targetDay = indexOf dayNames (theGroup 2 nextDayMatch);
                     currentDay = getDay env today;
                     daysUntil = targetDay - currentDay;
                     daysUntil' = (if daysUntil \<le> 0 then daysUntil + 7 else daysUntil)
                 in isoSlice10 (setDate env today (getDate env today + daysUntil')))
            | None \<Rightarrow>
           (case dateParse env lower of
              Some dateAttempt \<Rightarrow>
                (if getFullYear env dateAttempt > 2000 then isoSlice10 (Some dateAttempt)
                 else Inr None)
            | None \<Rightarrow> Inr None)))))"

text \<open>
  A concrete environment: 2 November 2026, a Monday, 10:00 in a zone nine hours ahead of
  UTC, and an implementation that parses no free text.
\<close>

definition tokyoEnv :: DateEnv where
  "tokyoEnv = \<lparr>nowMs = daysFromCivil 2026 11 2 * msPerDay + 3600000, tzaMs = 32400000,
     dateParse = (\<lambda>s. None)\<rparr>"

definition utcEnv :: DateEnv where
  "utcEnv = \<lparr>nowMs = daysFromCivil 2026 11 2 * msPerDay + 36000000, tzaMs = 0,
     dateParse = (\<lambda>s. None)\<rparr>"

section \<open>The intent classifier \<^verbatim>\<open>processMessage\<close>: tag and create intents\<close>

datatype ChatBotAction =
    Create ColumnId string string Priority "string option" "string list"
  | Update string TaskUpdates
  | Delete string
  | Move string ColumnId ColumnId

record ChatResponse =
  r_text :: string
  r_action :: "ChatBotAction option"

definition nl :: string where
  "nl = [CHR 0x0A]"

definition dq :: string where
  "dq = [CHR 0x22]"

definition COLUMN_NAMES :: "ColumnId \<Rightarrow> string" where
  "COLUMN_NAMES c = (case c of Todo \<Rightarrow> ''To Do'' | InProgress \<Rightarrow> ''In Progress'' | Done \<Rightarrow> ''Done'')"

definition PRIORITY_EMOJI :: "Priority \<Rightarrow> string" where
  "PRIORITY_EMOJI p = (case p of High \<Rightarrow> ''[U+1F534]'' | Medium \<Rightarrow> ''[U+1F7E1]'' | Low \<Rightarrow> ''[U+1F7E2]'')"

text \<open>The string that a value of the type \<^verbatim>\<open>Priority\<close> is.\<close>

definition priorityName :: "Priority \<Rightarrow> string" where
  "priorityName p = (case p of High \<Rightarrow> ''high'' | Medium \<Rightarrow> ''medium'' | Low \<Rightarrow> ''low'')"

definition spaceOrDash :: rx where
  "spaceOrDash = Alt Space (Ch CHR ''-'')"

text \<open>\<^verbatim>\<open>/\b(to[\s-]?do|todo|backlog)\b/\<close> and the two others of \<^verbatim>\<open>parseColumnRef\<close>.\<close>

definition parseColumnRef :: "string \<Rightarrow> ColumnId option" where
  "parseColumnRef txt =
     (let lower = toLowerCase txt
      in if matches False (seqs [Wordb, Grp 1 (alts [seqs [str ''to'', Opt spaceOrDash, str ''do''],
                str ''todo'', str ''backlog'']), Wordb]) lower then Some Todo
         else if matches False (seqs [Wordb, Grp 1 (alts [seqs [str ''in'', Opt spaceOrDash, str ''progress''],
                str ''doing'', str ''working'', str ''active'', str ''started'', str ''wip'']), Wordb]) lower
         then Some InProgress
         else if matches False (seqs [Wordb, Grp 1 (alts [str ''done'',
                Seq (str ''complete'') (Opt (Ch CHR ''d'')),
                Seq (str ''finishe'') (Opt (Ch CHR ''d''))]), Wordb]) lower
         then Some Done
         else None)"

text \<open>\<^verbatim>\<open>/\b(high|urgent|critical|important)\b/\<close> and the two others of \<^verbatim>\<open>parsePriorityRef\<close>.\<close>

definition parsePriorityRef :: "string \<Rightarrow> Priority option" where
  "parsePriorityRef txt =
     (let lower = toLowerCase txt
      in if matches False (seqs [Wordb, Grp 1 (words [''high'', ''urgent'', ''critical'', ''important'']),
                Wordb]) lower then Some High
         else if matches False (seqs [Wordb, Grp 1 (words [''medium'', ''normal'', ''moderate'', ''med'']),
                Wordb]) lower then Some Medium
         else if matches False (seqs [Wordb, Grp 1 (words [''low'', ''minor'', ''trivial'']), Wordb]) lower
         then Some Low
         else None)"

text \<open>
  \<^verbatim>\<open>/^(please\s+|can\s+you\s+|could\s+you\s+|would\s+you\s+|i\s+want\s+to\s+|i'd\s+like\s+to\s+|i\s+need\s+to\s+|i\s+want\s+you\s+to\s+)/i\<close>:
  every word is followed by \<^verbatim>\<open>\s+\<close>.
\<close>

definition spaced :: "string list \<Rightarrow> rx" where
  "spaced ws = seqs (concat (map (\<lambda>w. [str w, Plus Space]) ws))"

definition preambleRx :: rx where
  "preambleRx = seqs [Bol, Grp 1 (alts [spaced [''please''], spaced [''can'', ''you''],
     spaced [''could'', ''you''], spaced [''would'', ''you''], spaced [''i'', ''want'', ''to''],
     spaced [[CHR ''i'', CHR 0x27, CHR ''d''], ''like'', ''to''], spaced [''i'', ''need'', ''to''],
     spaced [''i'', ''want'', ''you'', ''to'']])]"

definition normalizeMessage :: "string \<Rightarrow> string" where
  "normalizeMessage msg =
     trim (removeFirst False (seqs [Plus (Ch CHR ''?''), Eol]) (removeFirst True preambleRx msg))"

definition formatCandidates :: "TaskView list \<Rightarrow> string" where
  "formatCandidates candidates =
     join nl (map (\<lambda>c. ''[U+2022] **'' @ v_title c @ ''** ('' @ COLUMN_NAMES (v_columnId c) @ '', ''
                          @ priorityName (v_priority c) @ '' priority)'') candidates)"

text \<open>\<^verbatim>\<open>s.split(/[,;&]+/).map(t => t.trim().toLowerCase())\<close>\<close>

definition splitTags :: "string \<Rightarrow> string list" where
  "splitTags s = map (\<lambda>t. toLowerCase (trim t)) (splitOn (\<lambda>c. c \<in> set '',;&'') s)"

text \<open>\<^verbatim>\<open>[...new Set(xs)]\<close>: the first occurrence of every element, in order.\<close>

definition dedupe :: "'a list \<Rightarrow> 'a list" where
  "dedupe xs = foldl (\<lambda>acc x. if x \<in> set acc then acc else acc @ [x]) [] xs"

definition backticked :: "string list \<Rightarrow> string" where
  "backticked ts = join '', '' (map (\<lambda>t. ''`'' @ t @ ''`'') ts)"

definition tagsQ :: rx where
  "tagsQ = Seq (str ''tag'') (Opt (Ch CHR ''s''))"

text \<open>\<^verbatim>\<open>/(?:add\s+(?:a\s+)?tags?\s+|tag\s+)(.+?)(?:\s+to\s+|\s+on\s+|\s+for\s+)(.+)/i\<close>\<close>

definition tagSourceRx :: rx where
  "tagSourceRx = seqs [
     Alt (seqs [str ''add'', Plus Space, Opt (seqs [Ch CHR ''a'', Plus Space]), tagsQ, Plus Space])
         (seqs [str ''tag'', Plus Space]),
     Grp 1 (LazyPlus Dot),
     alts [seqs [Plus Space, str ''to'', Plus Space], seqs [Plus Space, str ''on'', Plus Space],
           seqs [Plus Space, str ''for'', Plus Space]],
     Grp 2 (Plus Dot)]"

definition notFoundText :: "string \<Rightarrow> string" where
  "notFoundText taskRef =
     ''[U+274C] I couldn'' @ [CHR 0x27] @ ''t find a task matching '' @ dq @ ''**'' @ taskRef @ ''**''
       @ dq @ ''. Please check the name and try again.''"

definition addTagsIntent :: "string \<Rightarrow> TaskView list \<Rightarrow> ChatResponse" where
  "addTagsIntent normalized allTasks =
     (case exec True tagSourceRx normalized of
        Some tagSourceMatch \<Rightarrow>
          (let newTags = filter (\<lambda>t. t \<noteq> []) (splitTags (theGroup 1 tagSourceMatch));
               taskRef = theGroup 2 tagSourceMatch
           in case findTaskInMessage taskRef allTasks of
                (None, candidates) \<Rightarrow>
                  (if length candidates > 0
                   then \<lparr>r_text = ''Which task do you mean?'' @ nl @ nl @ formatCandidates candidates,
                         r_action = None\<rparr>
                   else \<lparr>r_text = notFoundText taskRef, r_action = None\<rparr>)
              | (Some task, candidates) \<Rightarrow>
                  (let merged = dedupe (v_tags task @ newTags)
                   in \<lparr>r_text = ''[U+1F3F7][U+FE0F] Added tag'' @ (if length newTags > 1 then ''s'' else [])
                          @ '' **'' @ join '', '' newTags @ ''** to **'' @ v_title task @ ''**.'' @ nl @ nl
                          @ ''Current tags: '' @ backticked merged,
                        r_action = Some (Update (v_id task) (noUpdates\<lparr>u_tags := Some merged\<rparr>))\<rparr>))
      | None \<Rightarrow>
          \<lparr>r_text = ''To add tags, say:'' @ nl @ ''[U+2022] **'' @ dq @ ''Add tag frontend to [task name]''
              @ dq @ ''**'' @ nl @ ''[U+2022] **'' @ dq @ ''Add tags design, ui to [task name]'' @ dq @ ''**'',
            r_action = None\<rparr>)"

text \<open>\<^verbatim>\<open>/(?:remove\s+(?:a\s+)?tags?\s+|untag\s+)(.+?)(?:\s+from\s+|\s+on\s+)(.+)/i\<close>\<close>

definition tagRemoveRx :: rx where
  "tagRemoveRx = seqs [
     Alt (seqs [str ''remove'', Plus Space, Opt (seqs [Ch CHR ''a'', Plus Space]), tagsQ, Plus Space])
         (seqs [str ''untag'', Plus Space]),
     Grp 1 (LazyPlus Dot),
     alts [seqs [Plus Space, str ''from'', Plus Space], seqs [Plus Space, str ''on'', Plus Space]],
     Grp 2 (Plus Dot)]"

definition removeTagsIntent :: "string \<Rightarrow> TaskView list \<Rightarrow> ChatResponse" where
  "removeTagsIntent normalized allTasks =
     (case exec True tagRemoveRx normalized of
        Some tagMatch \<Rightarrow>
          (let tagsToRemove = filter (\<lambda>t. t \<noteq> []) (splitTags (theGroup 1 tagMatch));
               taskRef = theGroup 2 tagMatch
           in case findTaskInMessage taskRef allTasks of
                (None, candidates) \<Rightarrow>
                  (if length candidates > 0
                   then \<lparr>r_text = ''Which task do you mean?'' @ nl @ nl @ formatCandidates candidates,
                         r_action = None\<rparr>
                   else \<lparr>r_text = notFoundText taskRef, r_action = None\<rparr>)
              | (Some task, candidates) \<Rightarrow>
                  (let remaining = filter (\<lambda>t. t \<notin> set tagsToRemove) (v_tags task)
                   in \<lparr>r_text = ''[U+1F3F7][U+FE0F] Removed tag''
                          @ (if length tagsToRemove > 1 then ''s'' else [])
                          @ '' **'' @ join '', '' tagsToRemove @ ''** from **'' @ v_title task @ ''**.''
                          @ (if length remaining > 0
                             then nl @ nl @ ''Remaining tags: '' @ backticked remaining
                             else nl @ nl @ ''No tags remaining.''),
                        r_action = Some (Update (v_id task) (noUpdates\<lparr>u_tags := Some remaining\<rparr>))\<rparr>))
      | None \<Rightarrow>
          \<lparr>r_text = ''To remove tags, say:'' @ nl @ ''[U+2022] **'' @ dq
              @ ''Remove tag frontend from [task name]'' @ dq @ ''**'' @ nl @ ''[U+2022] **'' @ dq
              @ ''Remove tags design, ui from [task name]'' @ dq @ ''**'',
            r_action = None\<rparr>)"

subsection \<open>The create intent\<close>

definition sq :: string where
  "sq = [CHR 0x27]"

text \<open>
  The keyword clauses that end a captured text, \<^verbatim>\<open>(?:\s+(?:with|priority|...)\b|$)\<close>. The
  column alternatives after \<^verbatim>\<open>in\s+\<close> differ between the regular expressions of the
  source: \<^verbatim>\<open>in\s?progress\<close> or \<^verbatim>\<open>in[\s-]?progress\<close>, with or without \<^verbatim>\<open>completed\<close>.
\<close>

definition colsPlain :: "rx list" where
  "colsPlain = [str ''todo'', seqs [str ''to'', Opt Space, str ''do''],
     seqs [str ''in'', Opt Space, str ''progress''], str ''doing'', str ''done'']"

definition colsDash :: "rx list" where
  "colsDash = [str ''todo'', seqs [str ''to'', Opt Space, str ''do''],
     seqs [str ''in'', Opt spaceOrDash, str ''progress''], str ''doing'', str ''done'']"

definition kwIn :: "rx list \<Rightarrow> rx" where
  "kwIn cols = seqs [str ''in'', Plus Space, alts cols]"

definition kwTail :: "rx list \<Rightarrow> rx" where
  "kwTail kws = Alt (seqs [Plus Space, alts kws, Wordb]) Eol"

definition kwAll :: "rx list \<Rightarrow> rx list" where
  "kwAll cols = [str ''with'', str ''priority'', str ''due'', str ''by'', tagsQ, str ''tagged'',
     kwIn cols, str ''description'', str ''desc'']"

text \<open>\<^verbatim>\<open>/(?:called|titled|named)\s+(.+?)(?:\s+(?:with|priority|due|by|tags?|tagged|in\s+(?:todo|to\s?do|in\s?progress|doing|done)|description|desc)\b|$)/i\<close>\<close>

definition calledRx :: rx where
  "calledRx = seqs [words [''called'', ''titled'', ''named''], Plus Space, Grp 1 (LazyPlus Dot),
     kwTail (kwAll colsPlain)]"

text \<open>\<^verbatim>\<open>/(?:task|item|card)\s*:\s*(.+?)(?:\s+(?:with|priority|due|by|tags?|tagged|in\s+(?:todo|to\s?do|in\s?progress|doing|done)|description|desc)\b|$)/i\<close>\<close>

definition colonRx :: rx where
  "colonRx = seqs [words [''task'', ''item'', ''card''], Star Space, Ch CHR '':'', Star Space,
     Grp 1 (LazyPlus Dot), kwTail (kwAll colsPlain)]"

text \<open>\<^verbatim>\<open>/(?:task|item|card)\s+(.+?)(?:\s+(?:with|priority|due|by|tags?|tagged|in\s+(?:todo|to\s?do|in[\s-]?progress|doing|done|completed)|description|desc)\b|$)/i\<close>\<close>

definition taskRx :: rx where
  "taskRx = seqs [words [''task'', ''item'', ''card''], Plus Space, Grp 1 (LazyPlus Dot),
     kwTail (kwAll (colsDash @ [str ''completed'']))]"

text \<open>\<^verbatim>\<open>/^(?:create|add|make|new)\s+(?:a\s+|an\s+)?(?:(?:high|medium|low)[\s-]?(?:priority\s+)?)?(.+?)(?:\s+(?:with|priority|due|by|tags?|tagged|in\s+(?:todo|to\s?do|in[\s-]?progress|doing|done)|description|desc)\b|$)/i\<close>\<close>

definition directRx :: rx where
  "directRx = seqs [Bol, words [''create'', ''add'', ''make'', ''new''], Plus Space,
     Opt (Alt (seqs [Ch CHR ''a'', Plus Space]) (seqs [str ''an'', Plus Space])),
     Opt (seqs [words [''high'', ''medium'', ''low''], Opt spaceOrDash,
                Opt (seqs [str ''priority'', Plus Space])]),
     Grp 1 (LazyPlus Dot), kwTail (kwAll colsDash)]"

text \<open>\<^verbatim>\<open>/(?:due|by|deadline)\s+(.+?)(?:\s+(?:with|priority|tags?|tagged|in\s+(?:todo|to\s?do|in[\s-]?progress|doing|done)|description|desc)\b|$)/i\<close>\<close>

definition dueRx :: rx where
  "dueRx = seqs [words [''due'', ''by'', ''deadline''], Plus Space, Grp 1 (LazyPlus Dot),
     kwTail [str ''with'', str ''priority'', tagsQ, str ''tagged'', kwIn colsDash,
             str ''description'', str ''desc'']]"

text \<open>\<^verbatim>\<open>/(?:tags?|tagged|labels?)\s*:?\s*(.+?)(?:\s+(?:with|priority|due|by|in\s+(?:todo|to\s?do|in[\s-]?progress|doing|done)|description|desc)\b|$)/i\<close>\<close>

definition tagsRx :: rx where
  "tagsRx = seqs [alts [tagsQ, str ''tagged'', Seq (str ''label'') (Opt (Ch CHR ''s''))],
     Star Space, Opt (Ch CHR '':''), Star Space, Grp 1 (LazyPlus Dot),
     kwTail [str ''with'', str ''priority'', str ''due'', str ''by'', kwIn colsDash,
             str ''description'', str ''desc'']]"

text \<open>\<^verbatim>\<open>/(?:description|desc|details)\s*:?\s*(.+?)$/i\<close>\<close>

definition descRx :: rx where
  "descRx = seqs [words [''description'', ''desc'', ''details''], Star Space, Opt (Ch CHR '':''),
     Star Space, Grp 1 (LazyPlus Dot), Eol]"

text \<open>\<^verbatim>\<open>/\s+(with|priority|due|by|tags?|tagged|in\s+(?:todo|to\s?do|in[\s-]?progress|doing|done)|description|desc)\b.*$/i\<close>\<close>

definition cleanRx :: rx where
  "cleanRx = seqs [Plus Space, Grp 1 (alts (kwAll colsDash)), Wordb, Star Dot, Eol]"

text \<open>\<^verbatim>\<open>/^["']|["']$/g\<close>\<close>

definition quotesEndsRx :: rx where
  "quotesEndsRx = Alt (Seq Bol (OneOf quoteChars)) (Seq (OneOf quoteChars) Eol)"

definition createHelpText :: string where
  "createHelpText =
     ''I'' @ sq @ ''d be happy to create a task! Please provide a title. Here are some examples:''
     @ nl @ nl @ ''[U+2022] **'' @ dq @ ''Create task: Fix the login bug'' @ dq @ ''**''
     @ nl @ ''[U+2022] **'' @ dq @ ''Add a task called Review PR'' @ dq @ ''**''
     @ nl @ ''[U+2022] **'' @ dq @ ''Create a high priority task '' @ sq @ ''Deploy v2'' @ sq
          @ '' due tomorrow'' @ dq @ ''**''
     @ nl @ ''[U+2022] **'' @ dq @ ''New task Design homepage with tags design, ui'' @ dq @ ''**''
     @ nl @ ''[U+2022] **'' @ dq @ ''Add task Set up CI/CD in progress'' @ dq @ ''**''"

definition titleHelpText :: string where
  "titleHelpText =
     ''I couldn'' @ sq @ ''t determine the task title. Please try again with a clearer format, like:''
     @ nl @ nl @ ''[U+2022] **'' @ dq @ ''Create task: Fix the login bug'' @ dq @ ''**''"

text \<open>The title, by the five patterns in their order; the empty string when none gives one.\<close>

definition extractTitle :: "string \<Rightarrow> string" where
  "extractTitle normalized =
     (let t1 = (case exec False quotedRx normalized of
                  Some quotedTitle \<Rightarrow> theGroup 1 quotedTitle | None \<Rightarrow> []);
          t2 = (if t1 = [] then
                  (case exec True calledRx normalized of
                     Some calledMatch \<Rightarrow> trim (theGroup 1 calledMatch) | None \<Rightarrow> t1)
                else t1);
          t3 = (if t2 = [] then
                  (case exec True colonRx normalized of
                     Some colonMatch \<Rightarrow> trim (theGroup 1 colonMatch) | None \<Rightarrow> t2)
                else t2);
          t4 = (if t3 = [] then
                  (case exec True taskRx normalized of
                     Some taskMatch \<Rightarrow>
                       trim (removeFirst True (seqs [Bol, Grp 1 (words [''called'', ''titled'', ''named'']),
                                                      Plus Space])
                              (removeFirst True (seqs [Bol, Grp 1 (words [''a'', ''an'', ''the'']),
                                                       Plus Space])
                                (theGroup 1 taskMatch)))
                   | None \<Rightarrow> t3)
                else t3)
      in if t4 = [] then
           (case exec True directRx normalized of
              Some directMatch \<Rightarrow>
                (let candidate =
                       trim (removeFirst True (seqs [Bol, Grp 1 (words [''called'', ''titled'', ''named'']),
                                                      Plus Space])
                              (removeFirst True (seqs [Bol, Grp 1 (words [''task'', ''item'', ''card'']),
                                                       Star Space])
                                (theGroup 1 directMatch)))
                 in if candidate \<noteq> [] \<and> toLowerCase candidate \<noteq> ''task''
                       \<and> toLowerCase candidate \<noteq> ''a'' \<and> length candidate > 1
                    then candidate else t4)
            | None \<Rightarrow> t4)
         else t4)"

definition createIntent :: "DateEnv \<Rightarrow> string \<Rightarrow> string \<Rightarrow> error + ChatResponse" where
  "createIntent env normalized lower =
     (let title0 = extractTitle normalized
      in if title0 = [] then Inr \<lparr>r_text = createHelpText, r_action = None\<rparr>
         else
           (let prio = (case parsePriorityRef lower of None \<Rightarrow> Medium | Some p \<Rightarrow> p);
                column = (case parseColumnRef lower of None \<Rightarrow> Todo | Some c \<Rightarrow> c)
            in case (case exec True dueRx lower of
                       Some dueDateMatch \<Rightarrow> parseNaturalDate env (trim (theGroup 1 dueDateMatch))
                     | None \<Rightarrow> Inr None) of
                 Inl e \<Rightarrow> Inl e
               | Inr due \<Rightarrow>
                   (let tgs = (case exec True tagsRx normalized of
                                  Some tagsMatch \<Rightarrow>
                                    filter (\<lambda>t. length t > 0 \<and> t \<noteq> ''and'')
                                      (splitTags (theGroup 1 tagsMatch))
                                | None \<Rightarrow> []);
                        descr = (case exec True descRx normalized of
                                         Some descMatch \<Rightarrow> trim (theGroup 1 descMatch)
                                       | None \<Rightarrow> []);
                        title1 = trim (removeFirst True cleanRx title0);
                        ttl = trim (removeAll_rx False quotesEndsRx title1)
                    in if ttl = [] then Inr \<lparr>r_text = titleHelpText, r_action = None\<rparr>
                       else
                         (let parts =
                                [''[U+2705] **Task created!**'' @ nl,
                                 ''[U+1F4CB] **'' @ ttl @ ''**'']
                                @ (if descr \<noteq> [] then [''[U+1F4DD] '' @ descr] else [])
                                @ [PRIORITY_EMOJI prio @ '' Priority: **'' @ priorityName prio @ ''**'',
                                   ''[U+1F4C2] Column: **'' @ COLUMN_NAMES column @ ''**'']
                                @ (case due of
                                     Some d \<Rightarrow> (if d \<noteq> [] then [''[U+1F4C5] Due: **'' @ d @ ''**''] else [])
                                   | None \<Rightarrow> [])
                                @ (if length tgs > 0
                                   then [''[U+1F3F7][U+FE0F] Tags: '' @ backticked tgs] else [])
                          in Inr \<lparr>r_text = join nl parts,
                                  r_action = Some (Create column ttl descr prio due tgs)\<rparr>))))"

subsection \<open>The classifier, up to the create intent\<close>

text \<open>
  \<open>processMessage\<close> checks the intents in order. The model has the first three: adding
  tags, removing tags, creating a task. \<open>Inr None\<close> says that the message is none of them
  (or is a question that starts like a create command) and goes on to the intents after
  them, which the model does not cover.
\<close>

definition processMessage :: "DateEnv \<Rightarrow> string \<Rightarrow> TaskView list \<Rightarrow> error + ChatResponse option" where
  "processMessage env message allTasks =
     (let normalized = normalizeMessage message;
          lower = toLowerCase normalized
      in if matches False (seqs [Bol, str ''add'', Plus Space, Opt (Grp 1 (seqs [Ch CHR ''a'', Plus Space])),
                                 tagsQ, Wordb]) lower
            \<or> matches False (seqs [Bol, str ''tag'', Space]) lower
         then Inr (Some (addTagsIntent normalized allTasks))
         else if matches False (seqs [Bol, str ''remove'', Plus Space,
                                      Opt (Grp 1 (seqs [Ch CHR ''a'', Plus Space])), tagsQ, Wordb]) lower
                 \<or> matches False (seqs [Bol, str ''untag'', Space]) lower
         then Inr (Some (removeTagsIntent normalized allTasks))
         else if (matches False (seqs [Bol, Grp 1 (words [''create'', ''add'', ''make'', ''new'']), Space]) lower
                  \<or> matches False (seqs [Bol, Grp 1 (words [''create'', ''add'']), Star Space, Eol]) lower
                  \<or> lower = ''new task'')
                 \<and> \<not> matches False (seqs [Bol, Grp 1 (words [''how'', ''what'', ''when'', ''where'', ''why'',
                                                              ''can i'']), Space]) lower
         then (case createIntent env normalized lower of
                 Inl e \<Rightarrow> Inl e
               | Inr r \<Rightarrow> Inr (Some r))
         else Inr None)"

subsection \<open>Concrete inputs of the chatbot functions\<close>

text \<open>A title whose lower-case form has at least three characters and is in the text.\<close>

definition titleIn :: "string \<Rightarrow> TaskView \<Rightarrow> bool" where
  "titleIn lower t \<longleftrightarrow>
     3 \<le> length (toLowerCase (v_title t)) \<and> includes_str lower (toLowerCase (v_title t))"

definition taskFive :: TaskView where
  "taskFive = demoTask ''1'' ''alpha beta gamma delta omega''"

definition taskThree :: TaskView where
  "taskThree = demoTask ''2'' ''alpha beta sigma''"

section \<open>The callers of the store: \<^verbatim>\<open>TaskModal\<close>, \<^verbatim>\<open>App\<close> and \<^verbatim>\<open>Chatbot\<close>\<close>

text \<open>
  A task object that has every field of the interface \<^verbatim>\<open>Task\<close>, as an object of the
  \<open>tasks\<close> mapping.
\<close>

definition asObject :: "TaskView \<Rightarrow> Task" where
  "asObject t =
     \<lparr>task_id = Some (v_id t), title = Some (v_title t), description = Some (v_description t),
      priority = Some (v_priority t), dueDate = Some (v_dueDate t), tags = Some (v_tags t),
      createdAt = Some (v_createdAt t), completedAt = Some (v_completedAt t),
      columnId = Some (v_columnId t)\<rparr>"

text \<open>
  The state of the dialog \<^verbatim>\<open>TaskModal\<close> that \<^verbatim>\<open>handleSubmit\<close> reads, and the effect that
  fills it when the dialog opens: from the task it is given (\<^verbatim>\<open>editingTask\<close>, the object
  that \<^verbatim>\<open>handleEditTask\<close> stored when the card was clicked), or empty for a new task.
  \<^verbatim>\<open>task.dueDate || ''\<close> is the empty string for \<^verbatim>\<open>null\<close>.
\<close>

record ModalState =
  m_title :: string
  m_description :: string
  m_priority :: Priority
  m_dueDate :: string
  m_tags :: "string list"
  m_columnId :: ColumnId

definition openModal :: "TaskView option \<Rightarrow> ColumnId \<Rightarrow> ModalState" where
  "openModal task defaultColumn =
     (case task of
        Some t \<Rightarrow>
          \<lparr>m_title = v_title t, m_description = v_description t, m_priority = v_priority t,
           m_dueDate = (case v_dueDate t of None \<Rightarrow> [] | Some d \<Rightarrow> d), m_tags = v_tags t,
           m_columnId = v_columnId t\<rparr>
      | None \<Rightarrow>
          \<lparr>m_title = [], m_description = [], m_priority = Medium, m_dueDate = [], m_tags = [],
           m_columnId = defaultColumn\<rparr>)"

text \<open>
  The argument of \<^verbatim>\<open>onSave\<close>. \<^verbatim>\<open>handleSubmit\<close> does not save a title that is empty
  after \<^verbatim>\<open>trim\<close> (the result \<open>None\<close>); \<^verbatim>\<open>dueDate || null\<close> is \<^verbatim>\<open>null\<close> for the empty
  string.
\<close>

record FormData =
  f_title :: string
  f_description :: string
  f_priority :: Priority
  f_dueDate :: "string option"
  f_tags :: "string list"
  f_columnId :: ColumnId

definition handleSubmit :: "ModalState \<Rightarrow> FormData option" where
  "handleSubmit m =
     (if trim (m_title m) = [] then None
      else Some \<lparr>f_title = trim (m_title m), f_description = trim (m_description m),
                 f_priority = m_priority m,
                 f_dueDate = (if m_dueDate m = [] then None else Some (m_dueDate m)),
                 f_tags = m_tags m, f_columnId = m_columnId m\<rparr>)"

text \<open>
  \<^verbatim>\<open>handleSaveTask\<close> of \<^verbatim>\<open>App\<close>. Its closure is the render \<open>r\<close>: the \<^verbatim>\<open>board\<close> whose
  list gives the index and the callbacks \<^verbatim>\<open>moveTask\<close>, \<^verbatim>\<open>updateTask\<close> and \<^verbatim>\<open>addTask\<close>
  are those of \<open>r\<close>. \<open>editingTask\<close> is the state cell of that name. \<open>newId\<close> is the
  value of \<^verbatim>\<open>uuidv4()\<close>, \<open>now1\<close> and \<open>now2\<close> are the values of the calls of
  \<^verbatim>\<open>new Date().toISOString()\<close> in their order.
\<close>

definition updatesOf :: "FormData \<Rightarrow> TaskUpdates" where
  "updatesOf d =
     \<lparr>u_title = Some (f_title d), u_description = Some (f_description d),
      u_priority = Some (f_priority d), u_dueDate = Some (f_dueDate d), u_tags = Some (f_tags d),
      u_completedAt = None, u_columnId = Some (f_columnId d)\<rparr>"

definition handleSaveTask ::
  "string \<Rightarrow> string \<Rightarrow> string \<Rightarrow> TaskView option \<Rightarrow> FormData \<Rightarrow> Store \<Rightarrow> Store \<Rightarrow> error + Store" where
  "handleSaveTask newId now1 now2 editingTask d r s =
     (case editingTask of
        Some et \<Rightarrow>
          andThen
            (if v_columnId et \<noteq> f_columnId d
             then moveTask now1 (v_id et) (v_columnId et) (f_columnId d)
                    (int (length (taskIds (columns (board r) (f_columnId d))))) r s
             else Inr s)
            (updateTask (v_id et) (updatesOf d) r)
      | None \<Rightarrow>
          addTask newId now1 now2 (f_columnId d) (f_title d) (f_description d) (f_priority d)
            (f_dueDate d) (f_tags d) r s)"

text \<open>
  \<^verbatim>\<open>executeAction\<close> of \<^verbatim>\<open>Chatbot\<close>. Its closure is the render \<open>r\<close> at which
  \<^verbatim>\<open>sendMessage\<close> set the timer: the \<^verbatim>\<open>board\<close> property and the four callbacks that
  \<^verbatim>\<open>App\<close> passes (\<^verbatim>\<open>onMoveTask={moveTask}\<close> and so on) are those of \<open>r\<close>.
\<close>

definition executeAction ::
  "string \<Rightarrow> string \<Rightarrow> string \<Rightarrow> ChatBotAction \<Rightarrow> Store \<Rightarrow> Store \<Rightarrow> error + Store" where
  "executeAction newId now1 now2 a r s =
     (case a of
        Create col ttl descr prio due tgs \<Rightarrow> addTask newId now1 now2 col ttl descr prio due tgs r s
      | Update taskId updates \<Rightarrow> updateTask taskId updates r s
      | Delete taskId \<Rightarrow> deleteTask taskId r s
      | Move taskId sourceCol destCol \<Rightarrow>
          moveTask now1 taskId sourceCol destCol
            (int (length (taskIds (columns (board r) destCol)))) r s)"

text \<open>
  The first task of the seed board \<open>demoStore\<close> as the card shows it, and the form
  data of its dialog when nothing but the column \<open>c\<close> is chosen.
\<close>

definition editT1 :: TaskView where
  "editT1 =
     \<lparr>v_id = ''t1'', v_title = ''Design homepage mockup'',
      v_description =
        ''Create wireframes and high-fidelity mockups for the new landing page redesign.'',
      v_priority = High, v_dueDate = Some (take 10 (demoIso 2)), v_tags = [''design'', ''ui''],
      v_createdAt = demoIso (-3), v_completedAt = None, v_columnId = Todo\<rparr>"

definition formT1 :: "ColumnId \<Rightarrow> FormData" where
  "formT1 c =
     \<lparr>f_title = ''Design homepage mockup'',
      f_description =
        ''Create wireframes and high-fidelity mockups for the new landing page redesign.'',
      f_priority = High, f_dueDate = Some (take 10 (demoIso 2)), f_tags = [''design'', ''ui''],
      f_columnId = c\<rparr>"

section \<open>Array primitives and the history stacks\<close>

lemma slice_from_last49: "slice_from xs (-49) = drop (length xs - 49) xs"
  by (auto simp: slice_from_def slice_def actualStart_def Let_def max_def min_def nat_diff_distrib)

lemma slice_butlast: "slice xs 0 (-1) = butlast xs"
  by (cases "xs = []") (auto simp: slice_def actualStart_def Let_def max_def butlast_conv_take nat_diff_distrib)

lemma nth_last_elem: "xs \<noteq> [] \<Longrightarrow> xs ! (length xs - 1) = last xs"
  by (simp add: last_conv_nth)

lemma pushHistory_simps:
  "board (pushHistory p s) = board s"
  "history (pushHistory p s) = drop (length (history s) - 49) (history s) @ [p]"
  "future (pushHistory p s) = []"
  by (simp_all add: pushHistory_def slice_from_last49)

lemma setBoard_Inr:
  "setBoard upd s = Inr s' \<Longrightarrow> history s' = history s \<and> future s' = future s \<and> upd (board s) = Inr (board s')"
  by (auto simp: setBoard_def split: sum.splits)

lemma mutate_shape:
  assumes "mutate m r s = Inr s'"
  shows "history s' = drop (length (history s) - 49) (history s) @ [board r] \<and> future s' = []"
  using assms
  by (cases m) (auto simp: addTask_def updateTask_def deleteTask_def moveTask_def resetBoard_def
      clearBoard_def pushHistory_simps dest!: setBoard_Inr)

lemma undo_after:
  assumes "history s' = h @ [b]" "future s' = []"
  shows "board (undo s' s') = b" "future (undo s' s') = [board s']" "history (undo s' s') = h"
        "board (redo (undo s' s') (undo s' s')) = board s'"
  using assms by (simp_all add: undo_def redo_def Let_def slice_butlast)

lemma act_inv:
  assumes "act a s = Inr s'" "length (history s) + length (future s) \<le> 50"
  shows "length (history s') + length (future s') \<le> 50"
proof (cases a)
  case (Mutate m)
  with assms mutate_shape[of m s s s'] show ?thesis by simp
next
  case Undo
  with assms show ?thesis
    by (cases "history s" rule: rev_cases) (auto simp: undo_def Let_def slice_butlast)
next
  case Redo
  with assms show ?thesis
    by (cases "future s" rule: rev_cases) (auto simp: redo_def Let_def slice_butlast)
qed

lemma run_inv:
  "run as s = Inr s' \<Longrightarrow> length (history s) + length (future s) \<le> 50
   \<Longrightarrow> length (history s') + length (future s') \<le> 50"
proof (induction as arbitrary: s)
  case Nil
  then show ?case by simp
next
  case (Cons a as)
  then show ?case by (auto split: sum.splits dest: act_inv)
qed

text \<open>
  A mutation returns unless it is a move to \<open>Done\<close> of an identifier that no task has,
  or the deletion of an object without a \<open>columnId\<close>.
\<close>

lemma mutate_returns:
  assumes "\<And>now i src dst idx. m = MoveTask now i src dst idx \<Longrightarrow> dst = Done \<Longrightarrow> tasks (board s) i \<noteq> None"
    and "\<And>i t. m = DeleteTask i \<Longrightarrow> tasks (board s) i = Some t \<Longrightarrow> columnId t \<noteq> None"
  shows "\<exists>s'. mutate m r s = Inr s'"
proof (cases m)
  case (AddTask newId nc nd col ttl descr prio due tgs)
  then show ?thesis by (simp add: addTask_def setBoard_def)
next
  case (UpdateTask i u)
  then show ?thesis by (simp add: updateTask_def setBoard_def)
next
  case (DeleteTask i)
  with assms(2)[of i] show ?thesis
    by (auto simp: deleteTask_def setBoard_def deleteTask_upd_def pushHistory_def
        split: option.splits)
next
  case (MoveTask now i src dst idx)
  with assms(1)[of now i src dst idx] show ?thesis
    by (auto simp: moveTask_def setBoard_def moveTask_upd_def pushHistory_def Let_def)
next
  case (ResetBoard e)
  then show ?thesis by (simp add: resetBoard_def setBoard_def)
next
  case ClearBoard
  then show ?thesis by (simp add: clearBoard_def setBoard_def)
qed

text \<open>
  What a mutation does to the stacks, for every closure: \<open>undo\<close> called after the
  next render gives back the board that the closure of the mutation held, which is
  the board before the mutation when the callback was the one of the latest render,
  and \<open>redo\<close> after that \<open>undo\<close> gives back the board after the mutation. In every
  state that a sequence of calls of the latest callbacks reaches from the initial hook
  state, the history holds at most 50 boards. \<open>canUndo\<close> and \<open>canRedo\<close> say whether
  the history and the redo stack are non-empty.
\<close>

lemma mutate_undo_redo:
  assumes m: "mutate m r s = Inr s'"
  shows "canUndo s'" "board (undo s' s') = board r" "canRedo (undo s' s')"
    "board (redo (undo s' s') (undo s' s')) = board s'" "length (history s') \<le> 50"
proof -
  note sh = mutate_shape[OF m]
  from sh show "canUndo s'" by (simp add: canUndo_def)
  from sh show "board (undo s' s') = board r" using undo_after(1)[of s'] by simp
  from sh show "canRedo (undo s' s')" using undo_after(2)[of s'] by (simp add: canRedo_def)
  from sh show "board (redo (undo s' s') (undo s' s')) = board s'" using undo_after(4)[of s'] by simp
  from sh show "length (history s') \<le> 50" by simp
qed

lemma run_history_bound: "run as (initStore b0) = Inr s \<Longrightarrow> length (history s) \<le> 50"
  using run_inv[of as "initStore b0" s] by (simp add: initStore_def)

lemma canUndo_canRedo: "canUndo s = (history s \<noteq> [])" "canRedo s = (future s \<noteq> [])"
  by (simp_all add: canUndo_def canRedo_def)

lemma indexOf_absent: "x \<notin> set xs \<Longrightarrow> indexOf xs x = -1"
  by (induction xs) (auto simp: Let_def)

lemma indexOf_present:
  "x \<in> set xs \<Longrightarrow> 0 \<le> indexOf xs x \<and> nat (indexOf xs x) < length xs \<and>
     take (nat (indexOf xs x)) xs @ drop (Suc (nat (indexOf xs x))) xs = remove1 x xs"
proof (induction xs)
  case Nil
  then show ?case by simp
next
  case (Cons y ys)
  show ?case
  proof (cases "y = x")
    case True
    then show ?thesis by simp
  next
    case False
    with Cons have IH: "0 \<le> indexOf ys x" "nat (indexOf ys x) < length ys"
      "take (nat (indexOf ys x)) ys @ drop (Suc (nat (indexOf ys x))) ys = remove1 x ys"
      by auto
    from IH(1) have n: "nat (indexOf ys x + 1) = Suc (nat (indexOf ys x))" by simp
    from False IH n show ?thesis by (simp add: Let_def)
  qed
qed

lemma splice_remove:
  assumes "x \<in> set xs"
  shows "splice_js xs (indexOf xs x) 1 [] = remove1 x xs"
proof -
  from indexOf_present[OF assms] have i: "0 \<le> indexOf xs x" "nat (indexOf xs x) < length xs"
    and r: "take (nat (indexOf xs x)) xs @ drop (Suc (nat (indexOf xs x))) xs = remove1 x xs"
    by auto
  from i have a: "actualStart (indexOf xs x) (length xs) = nat (indexOf xs x)"
    unfolding actualStart_def min_def by auto
  from i have d: "nat (min (max 1 0) (int (length xs) - int (nat (indexOf xs x)))) = 1"
    by (simp add: min_def)
  have "splice_js xs (indexOf xs x) 1 [] =
      take (nat (indexOf xs x)) xs @ drop (nat (indexOf xs x) + 1) xs"
    unfolding splice_js_def Let_def a d by simp
  with r show ?thesis by simp
qed

lemma splice_insert:
  "splice_js xs i 0 [x] = take (actualStart i (length xs)) xs @ x # drop (actualStart i (length xs)) xs"
  by (simp add: splice_js_def Let_def)

lemma actualStart_le: "actualStart i n \<le> n"
  by (auto simp: actualStart_def)

lemma set_splice_insert: "set (splice_js xs i 0 [x]) = insert x (set xs)"
proof -
  have "set (take k xs) \<union> set (drop k xs) = set xs" for k
    by (metis append_take_drop_id set_append)
  then show ?thesis by (auto simp: splice_insert)
qed

lemma distinct_splice_insert: "distinct (splice_js xs i 0 [x]) \<longleftrightarrow> x \<notin> set xs \<and> distinct xs"
proof -
  let ?k = "actualStart i (length xs)"
  have "distinct (take ?k xs @ x # drop ?k xs) \<longleftrightarrow> distinct (x # (take ?k xs @ drop ?k xs))"
    unfolding distinct_append distinct.simps set_append by auto
  then show ?thesis unfolding splice_insert append_take_drop_id by simp
qed

section \<open>The board invariant is kept by every call that meets \<open>callerOk\<close>\<close>

lemma taskIds_setTaskIds [simp]: "taskIds (setTaskIds b c ids) = ids"
  by (simp add: setTaskIds_def)

lemma boardInvI:
  assumes "\<And>c. distinct (taskIds (columns b c))"
    and "\<And>c i. i \<in> set (taskIds (columns b c)) \<Longrightarrow> \<exists>t. tasks b i = Some t \<and> columnId t = Some c"
    and "\<And>i t. tasks b i = Some t \<Longrightarrow> \<exists>c. columnId t = Some c \<and> i \<in> set (taskIds (columns b c))"
  shows "boardInv b"
  using assms unfolding boardInv_def by blast

lemma boardInv_distinct: "boardInv b \<Longrightarrow> distinct (taskIds (columns b c))"
  unfolding boardInv_def by blast

lemma boardInv_listed:
  "boardInv b \<Longrightarrow> i \<in> set (taskIds (columns b c)) \<Longrightarrow> \<exists>t. tasks b i = Some t \<and> columnId t = Some c"
  unfolding boardInv_def by blast

lemma boardInv_task:
  "boardInv b \<Longrightarrow> tasks b i = Some t \<Longrightarrow> \<exists>c. columnId t = Some c \<and> i \<in> set (taskIds (columns b c))"
  unfolding boardInv_def by blast

lemma boardInv_add:
  assumes inv: "boardInv b" and fresh: "tasks b newId = None"
  shows "boardInv (addTask_upd newId nc nd col ttl descr prio due tgs b)"
proof -
  have nin: "newId \<notin> set (taskIds (columns b c))" for c
    using boardInv_listed[OF inv, of newId c] fresh by auto
  let ?b = "addTask_upd newId nc nd col ttl descr prio due tgs b"
  have ids: "taskIds (columns ?b c) =
      (if c = col then taskIds (columns b c) @ [newId] else taskIds (columns b c))" for c
    by (simp add: addTask_upd_def Let_def)
  have tkn: "\<exists>t. tasks ?b newId = Some t \<and> columnId t = Some col"
    by (simp add: addTask_upd_def Let_def)
  have tko: "tasks ?b i = tasks b i" if "i \<noteq> newId" for i
    using that by (simp add: addTask_upd_def Let_def)
  show ?thesis
  proof (rule boardInvI)
    fix c show "distinct (taskIds (columns ?b c))"
      unfolding ids using boardInv_distinct[OF inv, of c] nin[of c] by auto
  next
    fix c i assume a: "i \<in> set (taskIds (columns ?b c))"
    show "\<exists>t. tasks ?b i = Some t \<and> columnId t = Some c"
    proof (cases "i = newId")
      case True
      with a nin[of c] have "c = col" unfolding ids by (simp split: if_splits)
      with True tkn show ?thesis by simp
    next
      case False
      with a have "i \<in> set (taskIds (columns b c))" unfolding ids by (simp split: if_splits)
      from boardInv_listed[OF inv this] show ?thesis unfolding tko[OF False] .
    qed
  next
    fix i t assume a: "tasks ?b i = Some t"
    show "\<exists>c. columnId t = Some c \<and> i \<in> set (taskIds (columns ?b c))"
    proof (cases "i = newId")
      case True
      with a tkn have "columnId t = Some col" by simp
      moreover from True have "i \<in> set (taskIds (columns ?b col))" unfolding ids by simp
      ultimately show ?thesis by blast
    next
      case False
      with a have "tasks b i = Some t" by (simp add: tko)
      from boardInv_task[OF inv this] obtain c where
        c: "columnId t = Some c" "i \<in> set (taskIds (columns b c))" by auto
      then have "i \<in> set (taskIds (columns ?b c))" unfolding ids by auto
      with c show ?thesis by blast
    qed
  qed
qed

lemma columnId_spread:
  "u_columnId u = None \<or> u_columnId u = columnId t \<Longrightarrow> columnId (spread t u) = columnId t"
  by (auto simp: spread_def override_def split: option.splits)

lemma boardInv_update:
  assumes inv: "boardInv b" and t: "tasks b taskId = Some t"
    and u: "u_columnId u = None \<or> u_columnId u = columnId t"
  shows "boardInv (updateTask_upd taskId u b)"
proof -
  let ?b = "updateTask_upd taskId u b"
  have ids: "columns ?b = columns b" by (simp add: updateTask_upd_def)
  have tk: "tasks ?b i = (if i = taskId then Some (spread t u) else tasks b i)" for i
    using t by (simp add: updateTask_upd_def spreadTask_def)
  note cs = columnId_spread[OF u]
  show ?thesis
  proof (rule boardInvI)
    fix c show "distinct (taskIds (columns ?b c))"
      using boardInv_distinct[OF inv, of c] by (simp add: ids)
  next
    fix c i assume "i \<in> set (taskIds (columns ?b c))"
    then show "\<exists>t. tasks ?b i = Some t \<and> columnId t = Some c"
      using boardInv_listed[OF inv, of i c] t cs by (auto simp: ids tk)
  next
    fix i t' assume "tasks ?b i = Some t'"
    then show "\<exists>c. columnId t' = Some c \<and> i \<in> set (taskIds (columns ?b c))"
      using boardInv_task[OF inv, of i] t cs by (auto simp: ids tk split: if_splits)
  qed
qed

lemma boardInv_unique:
  assumes inv: "boardInv b" and t: "tasks b i = Some t" and c: "columnId t = Some c"
  shows "i \<in> set (taskIds (columns b c')) \<longleftrightarrow> c' = c"
  using boardInv_listed[OF inv, of i c'] boardInv_task[OF inv t] t c by auto

lemma boardInv_delete:
  assumes inv: "boardInv b"
  shows "\<exists>b'. deleteTask_upd taskId b = Inr b' \<and> boardInv b'"
proof (cases "tasks b taskId")
  case None
  with inv show ?thesis by (simp add: deleteTask_upd_def)
next
  case (Some t)
  from boardInv_task[OF inv Some] obtain c where c: "columnId t = Some c" by auto
  note un = boardInv_unique[OF inv Some c]
  let ?b = "b\<lparr>tasks := (tasks b)(taskId := None),
      columns := (columns b)(c := setTaskIds b c (filter (\<lambda>i. i \<noteq> taskId) (taskIds (columns b c))))\<rparr>"
  have eq: "deleteTask_upd taskId b = Inr ?b"
    using Some c by (simp add: deleteTask_upd_def)
  have ids: "taskIds (columns ?b c') = (if c' = c then filter (\<lambda>i. i \<noteq> taskId) (taskIds (columns b c))
      else taskIds (columns b c'))" for c'
    by (simp add: setTaskIds_def)
  have tk: "tasks ?b i = (if i = taskId then None else tasks b i)" for i
    by simp
  have "boardInv ?b"
  proof (rule boardInvI)
    fix c' show "distinct (taskIds (columns ?b c'))"
      unfolding ids using boardInv_distinct[OF inv, of c'] boardInv_distinct[OF inv, of c] by simp
  next
    fix c' i assume "i \<in> set (taskIds (columns ?b c'))"
    then show "\<exists>t. tasks ?b i = Some t \<and> columnId t = Some c'"
      using boardInv_listed[OF inv, of i c'] un[of c'] unfolding ids tk by (auto split: if_splits)
  next
    fix i t' assume "tasks ?b i = Some t'"
    then show "\<exists>c'. columnId t' = Some c' \<and> i \<in> set (taskIds (columns ?b c'))"
      using boardInv_task[OF inv, of i t'] unfolding ids tk by (auto split: if_splits)
  qed
  with eq show ?thesis by simp
qed

lemma moveTask_upd_same:
  assumes t: "tasks b taskId = Some t" and mem: "taskId \<in> set (taskIds (columns b src))"
  shows "moveTask_upd now taskId src src idx b =
     Inr (b\<lparr>tasks := (tasks b)(taskId \<mapsto> t\<lparr>columnId := Some src,
                completedAt := (if src = Done \<and> \<not> truthy (completedAt t) then Some (Some now)
                      else if src \<noteq> Done then Some None else completedAt t)\<rparr>),
            columns := (columns b)(src := setTaskIds b src
                     (splice_js (remove1 taskId (taskIds (columns b src))) idx 0 [taskId]))\<rparr>)"
  using t by (simp add: moveTask_upd_def Let_def splice_remove[OF mem] spreadTask_def)

lemma moveTask_upd_diff:
  assumes t: "tasks b taskId = Some t" and mem: "taskId \<in> set (taskIds (columns b src))"
    and ne: "src \<noteq> dst"
  shows "moveTask_upd now taskId src dst idx b =
     Inr (b\<lparr>tasks := (tasks b)(taskId \<mapsto> t\<lparr>columnId := Some dst,
                completedAt := (if dst = Done \<and> \<not> truthy (completedAt t) then Some (Some now)
                      else if dst \<noteq> Done then Some None else completedAt t)\<rparr>),
            columns := (columns b)(src := setTaskIds b src (remove1 taskId (taskIds (columns b src))),
                               dst := setTaskIds b dst
                     (splice_js (taskIds (columns b dst)) idx 0 [taskId]))\<rparr>)"
  using t ne by (simp add: moveTask_upd_def Let_def splice_remove[OF mem] spreadTask_def)

lemma boardInv_move_same:
  assumes inv: "boardInv b" and t: "tasks b taskId = Some t" and c: "columnId t = Some src"
  shows "\<exists>b'. moveTask_upd now taskId src src idx b = Inr b' \<and> boardInv b'"
proof -
  note un = boardInv_unique[OF inv t c]
  from un have mem: "taskId \<in> set (taskIds (columns b src))" by simp
  let ?S = "remove1 taskId (taskIds (columns b src))"
  let ?t = "t\<lparr>columnId := Some src,
                completedAt := (if src = Done \<and> \<not> truthy (completedAt t) then Some (Some now)
                      else if src \<noteq> Done then Some None else completedAt t)\<rparr>"
  have dS: "distinct ?S" using boardInv_distinct[OF inv] by simp
  have nS: "taskId \<notin> set ?S" using boardInv_distinct[OF inv, of src] by simp
  have setS: "set ?S = set (taskIds (columns b src)) - {taskId}"
    using boardInv_distinct[OF inv, of src] by simp
  let ?b = "b\<lparr>tasks := (tasks b)(taskId \<mapsto> ?t),
     columns := (columns b)(src := setTaskIds b src (splice_js ?S idx 0 [taskId]))\<rparr>"
  have ids: "taskIds (columns ?b c') = (if c' = src then splice_js ?S idx 0 [taskId]
      else taskIds (columns b c'))" for c'
    by simp
  have tk: "tasks ?b i = (if i = taskId then Some ?t else tasks b i)" for i
    by simp
  have "boardInv ?b"
  proof (rule boardInvI)
    fix c' show "distinct (taskIds (columns ?b c'))"
      unfolding ids using boardInv_distinct[OF inv, of c'] dS nS
      by (simp add: distinct_splice_insert)
  next
    fix c' i assume a: "i \<in> set (taskIds (columns ?b c'))"
    show "\<exists>t. tasks ?b i = Some t \<and> columnId t = Some c'"
    proof (cases "i = taskId")
      case True
      from a un[of c'] have "c' = src" unfolding ids True by (auto split: if_splits)
      with True show ?thesis unfolding tk by simp
    next
      case False
      from a False have "i \<in> set (taskIds (columns b c'))"
        unfolding ids by (auto simp: set_splice_insert setS split: if_splits)
      from boardInv_listed[OF inv this] False show ?thesis unfolding tk by simp
    qed
  next
    fix i t' assume a: "tasks ?b i = Some t'"
    show "\<exists>c'. columnId t' = Some c' \<and> i \<in> set (taskIds (columns ?b c'))"
    proof (cases "i = taskId")
      case True
      with a have "t' = ?t" unfolding tk by simp
      with True show ?thesis unfolding ids
        by (intro exI[of _ src]) (simp add: set_splice_insert)
    next
      case False
      with a have "tasks b i = Some t'" unfolding tk by simp
      from boardInv_task[OF inv this] obtain c' where
        c': "columnId t' = Some c'" "i \<in> set (taskIds (columns b c'))" by auto
      with False have "i \<in> set (taskIds (columns ?b c'))"
        unfolding ids by (auto simp: set_splice_insert setS)
      with c' show ?thesis by blast
    qed
  qed
  then show ?thesis unfolding moveTask_upd_same[OF t mem] by (intro exI[of _ ?b] conjI refl)
qed

lemma boardInv_move_diff:
  assumes inv: "boardInv b" and t: "tasks b taskId = Some t" and c: "columnId t = Some src"
    and ne: "src \<noteq> dst"
  shows "\<exists>b'. moveTask_upd now taskId src dst idx b = Inr b' \<and> boardInv b'"
proof -
  note un = boardInv_unique[OF inv t c]
  from un have mem: "taskId \<in> set (taskIds (columns b src))" by simp
  let ?S = "remove1 taskId (taskIds (columns b src))"
  let ?t = "t\<lparr>columnId := Some dst,
                completedAt := (if dst = Done \<and> \<not> truthy (completedAt t) then Some (Some now)
                      else if dst \<noteq> Done then Some None else completedAt t)\<rparr>"
  have dS: "distinct ?S" using boardInv_distinct[OF inv] by simp
  have nS: "taskId \<notin> set ?S" using boardInv_distinct[OF inv, of src] by simp
  have setS: "set ?S = set (taskIds (columns b src)) - {taskId}"
    using boardInv_distinct[OF inv, of src] by simp
  let ?D = "splice_js (taskIds (columns b dst)) idx 0 [taskId]"
  let ?b = "b\<lparr>tasks := (tasks b)(taskId \<mapsto> ?t),
     columns := (columns b)(src := setTaskIds b src ?S, dst := setTaskIds b dst ?D)\<rparr>"
  have ids: "taskIds (columns ?b c') = (if c' = dst then ?D else if c' = src then ?S
      else taskIds (columns b c'))" for c'
    by simp
  have tk: "tasks ?b i = (if i = taskId then Some ?t else tasks b i)" for i
    by simp
  from un[of dst] ne have nD: "taskId \<notin> set (taskIds (columns b dst))" by auto
  have "boardInv ?b"
  proof (rule boardInvI)
    fix c' show "distinct (taskIds (columns ?b c'))"
      unfolding ids using boardInv_distinct[OF inv, of c'] boardInv_distinct[OF inv, of dst] dS nD
      by (simp add: distinct_splice_insert)
  next
    fix c' i assume a: "i \<in> set (taskIds (columns ?b c'))"
    show "\<exists>t. tasks ?b i = Some t \<and> columnId t = Some c'"
    proof (cases "i = taskId")
      case True
      have "c' = dst"
      proof (rule ccontr)
        assume n: "c' \<noteq> dst"
        show False
        proof (cases "c' = src")
          case True
          with a n nS \<open>i = taskId\<close> show False unfolding ids by simp
        next
          case False
          with a n \<open>i = taskId\<close> have "taskId \<in> set (taskIds (columns b c'))"
            unfolding ids by simp
          with un[of c'] False show False by simp
        qed
      qed
      with True show ?thesis unfolding tk by simp
    next
      case False
      from a False have "i \<in> set (taskIds (columns b c'))"
        unfolding ids by (auto simp: set_splice_insert setS split: if_splits)
      from boardInv_listed[OF inv this] False show ?thesis unfolding tk by simp
    qed
  next
    fix i t' assume a: "tasks ?b i = Some t'"
    show "\<exists>c'. columnId t' = Some c' \<and> i \<in> set (taskIds (columns ?b c'))"
    proof (cases "i = taskId")
      case True
      with a have "t' = ?t" unfolding tk by simp
      with True show ?thesis unfolding ids
        by (intro exI[of _ dst]) (simp add: set_splice_insert)
    next
      case False
      with a have "tasks b i = Some t'" unfolding tk by simp
      from boardInv_task[OF inv this] obtain c' where
        c': "columnId t' = Some c'" "i \<in> set (taskIds (columns b c'))" by auto
      with False have "i \<in> set (taskIds (columns ?b c'))"
        unfolding ids by (auto simp: set_splice_insert setS)
      with c' show ?thesis by blast
    qed
  qed
  then show ?thesis unfolding moveTask_upd_diff[OF t mem ne] by (intro exI[of _ ?b] conjI refl)
qed

lemma boardInv_move:
  assumes inv: "boardInv b" and t: "tasks b taskId = Some t" and c: "columnId t = Some src"
  shows "\<exists>b'. moveTask_upd now taskId src dst idx b = Inr b' \<and> boardInv b'"
proof (cases "src = dst")
  case True
  from boardInv_move_same[OF inv t c, of now idx] show ?thesis unfolding True .
next
  case False
  from boardInv_move_diff[OF inv t c False] show ?thesis .
qed

lemma mkTask_sel:
  "fst (mkTask i ttl descr prio due tgs created completed col) = i"
  "columnId (snd (mkTask i ttl descr prio due tgs created completed col)) = Some col"
  by (simp_all add: mkTask_def)

lemma idsIn_Cons:
  "idsIn c (p # ps) = (if columnId (snd p) = Some c then fst p # idsIn c ps else idsIn c ps)"
  "idsIn c [] = []"
  by (simp_all add: idsIn_def split_beta)

lemma assignAll_Cons: "assignAll m (p # ps) = assignAll (m(fst p \<mapsto> snd p)) ps"
  by (cases p) simp

lemma seed_taskIds:
  "taskIds (columns (createDefaultBoard e) Todo) = [uuid1 e, uuid2 e, uuid3 e]"
  "taskIds (columns (createDefaultBoard e) InProgress) = [uuid4 e, uuid5 e]"
  "taskIds (columns (createDefaultBoard e) Done) = [uuid6 e]"
  by (simp_all add: createDefaultBoard_def idsIn_Cons sampleTasks_def mkTask_sel)

lemma seed_tasks:
  "\<exists>t1 t2 t3 t4 t5 t6.
     columnId t1 = Some Todo \<and> columnId t2 = Some Todo \<and> columnId t3 = Some Todo \<and>
     columnId t4 = Some InProgress \<and> columnId t5 = Some InProgress \<and> columnId t6 = Some Done \<and>
     tasks (createDefaultBoard e) =
       [uuid1 e \<mapsto> t1, uuid2 e \<mapsto> t2, uuid3 e \<mapsto> t3, uuid4 e \<mapsto> t4, uuid5 e \<mapsto> t5, uuid6 e \<mapsto> t6]"
  unfolding createDefaultBoard_def sampleTasks_def
  by (simp add: assignAll_Cons mkTask_sel) (blast intro: mkTask_sel(2))

lemma boardInv_seed:
  assumes d: "distinct (seedIds e)"
  shows "boardInv (createDefaultBoard e)"
proof -
  let ?b = "createDefaultBoard e"
  from seed_tasks[of e] obtain t1 t2 t3 t4 t5 t6 where
    cs: "columnId t1 = Some Todo" "columnId t2 = Some Todo" "columnId t3 = Some Todo"
        "columnId t4 = Some InProgress" "columnId t5 = Some InProgress" "columnId t6 = Some Done"
    and tk: "tasks ?b = [uuid1 e \<mapsto> t1, uuid2 e \<mapsto> t2, uuid3 e \<mapsto> t3, uuid4 e \<mapsto> t4,
       uuid5 e \<mapsto> t5, uuid6 e \<mapsto> t6]"
    by blast
  from d have d': "uuid1 e \<noteq> uuid2 e" "uuid1 e \<noteq> uuid3 e" "uuid1 e \<noteq> uuid4 e" "uuid1 e \<noteq> uuid5 e"
    "uuid1 e \<noteq> uuid6 e" "uuid2 e \<noteq> uuid3 e" "uuid2 e \<noteq> uuid4 e" "uuid2 e \<noteq> uuid5 e"
    "uuid2 e \<noteq> uuid6 e" "uuid3 e \<noteq> uuid4 e" "uuid3 e \<noteq> uuid5 e" "uuid3 e \<noteq> uuid6 e"
    "uuid4 e \<noteq> uuid5 e" "uuid4 e \<noteq> uuid6 e" "uuid5 e \<noteq> uuid6 e"
    by (simp_all add: seedIds_def)
  show ?thesis
  proof (rule boardInvI)
    fix c show "distinct (taskIds (columns ?b c))"
      using d' by (cases c) (simp_all add: seed_taskIds)
  next
    fix c i assume "i \<in> set (taskIds (columns ?b c))"
    then show "\<exists>t. tasks ?b i = Some t \<and> columnId t = Some c"
      unfolding tk using d' cs by (cases c) (auto simp: seed_taskIds)
  next
    fix i t assume "tasks ?b i = Some t"
    then have "(i = uuid1 e \<and> t = t1) \<or> (i = uuid2 e \<and> t = t2) \<or> (i = uuid3 e \<and> t = t3) \<or>
       (i = uuid4 e \<and> t = t4) \<or> (i = uuid5 e \<and> t = t5) \<or> (i = uuid6 e \<and> t = t6)"
      unfolding tk by (auto split: if_splits)
    then show "\<exists>c. columnId t = Some c \<and> i \<in> set (taskIds (columns ?b c))"
      using cs seed_taskIds[of e]
      by (elim disjE conjE) fastforce+
  qed
qed

lemma distinct_count_one: "distinct xs \<Longrightarrow> x \<in> set xs \<Longrightarrow> count_list xs x = 1"
  by (induction xs) auto

lemma boardInv_empty: "boardInv emptyBoard"
  by (rule boardInvI) (simp_all add: emptyBoard_def split: ColumnId.splits)

lemma updater_inv:
  assumes inv: "boardInv b" and ok: "callerOk m b"
  shows "\<exists>b'. updater m b = Inr b' \<and> boardInv b'"
proof (cases m)
  case (AddTask newId nc nd col ttl descr prio due tgs)
  with ok boardInv_add[OF inv] show ?thesis by simp
next
  case (UpdateTask taskId u)
  with ok boardInv_update[OF inv] show ?thesis by (auto split: option.splits)
next
  case (DeleteTask taskId)
  with boardInv_delete[OF inv] show ?thesis by simp
next
  case (MoveTask now taskId src dst idx)
  with ok boardInv_move[OF inv] show ?thesis by (auto split: option.splits)
next
  case (ResetBoard e)
  with ok boardInv_seed show ?thesis by simp
next
  case ClearBoard
  with boardInv_empty show ?thesis by simp
qed

lemma runBoard_inv:
  "boardInv b \<Longrightarrow> runBoard ms b = Some b' \<Longrightarrow> boardInv b'"
proof (induction ms arbitrary: b)
  case Nil
  then show ?case by simp
next
  case (Cons m ms)
  from Cons.prems(2) have ok: "callerOk m b" by (simp split: if_splits)
  from updater_inv[OF Cons.prems(1) ok] obtain b1 where b1: "updater m b = Inr b1" "boardInv b1"
    by blast
  with Cons.prems(2) ok have "runBoard ms b1 = Some b'" by simp
  from Cons.IH[OF b1(2) this] show ?case .
qed

text \<open>
  On every board reached from the seed board by updates whose arguments meet
  \<open>callerOk\<close>, a task of the \<open>tasks\<close> mapping is listed in exactly one column, once,
  and that column is the one in its \<open>columnId\<close> field.
\<close>

lemma callerOk_task_in_one_column:
  assumes "distinct (seedIds e)"
    and "runBoard ms (createDefaultBoard e) = Some b"
    and "tasks b i = Some t"
  shows "\<exists>c. columnId t = Some c \<and> (\<forall>c'. i \<in> set (taskIds (columns b c')) \<longleftrightarrow> c' = c)
            \<and> count_list (taskIds (columns b c)) i = 1"
proof -
  from runBoard_inv[OF boardInv_seed[OF assms(1)] assms(2)] have inv: "boardInv b" .
  from boardInv_task[OF inv assms(3)] obtain c where c: "columnId t = Some c"
    "i \<in> set (taskIds (columns b c))" by auto
  from boardInv_distinct[OF inv, of c] c(2) have "count_list (taskIds (columns b c)) i = 1"
    by (rule distinct_count_one)
  with boardInv_unique[OF inv assms(3) c(1)] c(1) show ?thesis by blast
qed

section \<open>Single calls: completion stamps, missing identifiers, list positions\<close>

lemma setBoard_pushHistory:
  "upd (board s) = Inr b' \<Longrightarrow>
     setBoard upd (pushHistory p s) =
       Inr \<lparr>board = b', history = drop (length (history s) - 49) (history s) @ [p], future = []\<rparr>"
  by (simp add: setBoard_def pushHistory_def slice_from_last49)

lemma setBoard_pushHistory_err:
  "upd (board s) = Inl e \<Longrightarrow> setBoard upd (pushHistory p s) = Inl e"
  by (simp add: setBoard_def pushHistory_def)

lemma seed_lists_demo:
  "taskIds (columns (createDefaultBoard demoEnv) Todo) = [''t1'', ''t2'', ''t3'']"
  "taskIds (columns (createDefaultBoard demoEnv) InProgress) = [''t4'', ''t5'']"
  "taskIds (columns (createDefaultBoard demoEnv) Done) = [''t6'']"
  by (simp_all add: seed_taskIds demoEnv_def)

lemma seed_task_demo: "\<exists>t. tasks (createDefaultBoard demoEnv) ''t4'' = Some t"
  using seed_tasks[of demoEnv] by (auto simp: demoEnv_def)

text \<open>
  \<open>deleteTask\<close> with an identifier that no task has, for every closure: the board
  stays, the board of the closure is pushed onto the history and the redo stack is
  emptied.
\<close>

lemma deleteTask_absent:
  assumes "tasks (board s) taskId = None"
  shows "deleteTask taskId r s =
     Inr \<lparr>board = board s, history = drop (length (history s) - 49) (history s) @ [board r],
          future = []\<rparr>"
proof -
  from assms have "deleteTask_upd taskId (board s) = Inr (board s)"
    by (simp add: deleteTask_upd_def)
  from setBoard_pushHistory[of "deleteTask_upd taskId", OF this]
  show ?thesis by (simp add: deleteTask_def)
qed

text \<open>
  Claim C3. For a task of the board whose \<open>completedAt\<close> is \<^verbatim>\<open>null\<close> or a non-empty
  time stamp, \<open>moveTask\<close> returns, and the new \<open>completedAt\<close> is the current time
  stamp when the destination is \<open>Done\<close> and the old value was \<^verbatim>\<open>null\<close>, is \<^verbatim>\<open>null\<close>
  exactly when the destination is not \<open>Done\<close>, and is the old time stamp exactly when
  the destination is \<open>Done\<close> and a time stamp was set.
\<close>

theorem moveTask_completedAt:
  assumes t: "tasks (board s) taskId = Some t" and old: "completedAt t = Some old"
    and wf: "old \<noteq> Some []"
  shows "\<exists>s' t' new. moveTask now taskId src dst idx r s = Inr s'
     \<and> tasks (board s') taskId = Some t' \<and> completedAt t' = Some new
     \<and> new = (if dst = Done \<and> old = None then Some now else if dst \<noteq> Done then None else old)
     \<and> (new = None \<longleftrightarrow> dst \<noteq> Done)
     \<and> (old \<noteq> Some now \<longrightarrow> (new = Some now \<longleftrightarrow> dst = Done \<and> old = None))
     \<and> (new = old \<and> old \<noteq> None \<longleftrightarrow> dst = Done \<and> old \<noteq> None)"
proof -
  let ?new = "if dst = Done \<and> old = None then Some now else if dst \<noteq> Done then None else old"
  from wf have tr: "truthy (Some old) \<longleftrightarrow> old \<noteq> None"
    by (cases old) (simp_all add: truthy_def)
  have "\<exists>b' t'. moveTask_upd now taskId src dst idx (board s) = Inr b' \<and> tasks b' taskId = Some t'
      \<and> completedAt t' = Some ?new"
    using t old tr by (simp add: moveTask_upd_def Let_def spreadTask_def)
  then obtain b' t' where b': "moveTask_upd now taskId src dst idx (board s) = Inr b'"
    "tasks b' taskId = Some t'" "completedAt t' = Some ?new" by blast
  from setBoard_pushHistory[of "moveTask_upd now taskId src dst idx", OF b'(1)]
  have "moveTask now taskId src dst idx r s =
     Inr \<lparr>board = b', history = drop (length (history s) - 49) (history s) @ [board r], future = []\<rparr>"
    by (simp add: moveTask_def)
  moreover have "(?new = None \<longleftrightarrow> dst \<noteq> Done)" by auto
  moreover have "old \<noteq> Some now \<longrightarrow> (?new = Some now \<longleftrightarrow> dst = Done \<and> old = None)" by auto
  moreover have "(?new = old \<and> old \<noteq> None \<longleftrightarrow> dst = Done \<and> old \<noteq> None)" by auto
  ultimately show ?thesis using b'(2,3) by (intro exI[of _ "\<lparr>board = b', history = drop (length (history s) - 49) (history s) @ [board r], future = []\<rparr>"] exI[of _ t'] exI[of _ ?new]) simp
qed


lemma demo_t6: "\<exists>t. tasks (board demoStore) ''t6'' = Some t \<and> completedAt t = Some (Some (demoIso (-7)))"
  by (simp add: demoStore_def initStore_def createDefaultBoard_def sampleTasks_def demoEnv_def mkTask_def)

lemma demoIso_m7: "demoIso (-7) = ''2026-01-08T09:00:00.000Z''"
  by code_simp

theorem moveTask_completedAt_witness:
  "\<exists>s' t'. moveTask ''2026-01-16T10:00:00.000Z'' ''t6'' Done Todo 0 demoStore demoStore = Inr s'
     \<and> tasks (board s') ''t6'' = Some t' \<and> completedAt t' = Some None"
proof -
  from demo_t6 obtain t where t: "tasks (board demoStore) ''t6'' = Some t"
    "completedAt t = Some (Some (demoIso (-7)))" by blast
  have wf: "Some (demoIso (-7)) \<noteq> Some []" by (simp add: demoIso_m7)
  from moveTask_completedAt[OF t wf, of "''2026-01-16T10:00:00.000Z''" Done Todo 0 demoStore]
  show ?thesis by auto
qed

lemma actualStart_alt:
  "actualStart idx n = (if idx < 0 then n - nat (- idx) else min (nat idx) n)"
  by (auto simp: actualStart_def min_def max_def)

lemma insertClamped_nonneg:
  "0 \<le> idx \<Longrightarrow> splice_js xs idx 0 [x] = insertClamped xs idx x"
  by (simp add: splice_insert insertClamped_def actualStart_def Let_def min_def max_def)

lemma moveTask_result:
  assumes t: "tasks (board s) taskId = Some t"
    and mem: "taskId \<in> set (taskIds (columns (board s) src))"
  shows "listOf dst (moveTask now taskId src dst idx r s) =
           Inr (splice_js (if src = dst then remove1 taskId (taskIds (columns (board s) src))
                           else taskIds (columns (board s) dst)) idx 0 [taskId])"
    and "src \<noteq> dst \<Longrightarrow> listOf src (moveTask now taskId src dst idx r s) =
           Inr (remove1 taskId (taskIds (columns (board s) src)))"
proof -
  show "listOf dst (moveTask now taskId src dst idx r s) =
           Inr (splice_js (if src = dst then remove1 taskId (taskIds (columns (board s) src))
                           else taskIds (columns (board s) dst)) idx 0 [taskId])"
  proof (cases "src = dst")
    case True
    note eq = moveTask_upd_same[OF t mem, of now idx]
    from setBoard_pushHistory[of "moveTask_upd now taskId src src idx", OF eq]
    show ?thesis unfolding True[symmetric] moveTask_def by (simp add: listOf_def)
  next
    case False
    note eq = moveTask_upd_diff[OF t mem False, of now idx]
    from setBoard_pushHistory[of "moveTask_upd now taskId src dst idx", OF eq] False
    show ?thesis unfolding moveTask_def by (simp add: listOf_def)
  qed
next
  assume ne: "src \<noteq> dst"
  note eq = moveTask_upd_diff[OF t mem ne, of now idx]
  from setBoard_pushHistory[of "moveTask_upd now taskId src dst idx", OF eq] ne
  show "listOf src (moveTask now taskId src dst idx r s) =
           Inr (remove1 taskId (taskIds (columns (board s) src)))"
    unfolding moveTask_def by (simp add: listOf_def)
qed

text \<open>
  Claim C5, amended. For a task of the board whose identifier is in the list of the
  source column, \<open>moveTask\<close> removes the identifier from the source list and inserts it
  into the destination list, which is the shortened source list when both columns are
  the same. A destination index \<open>idx \<ge> 0\<close> is clamped to the length of that list; a
  negative one counts from the end of the list, \<open>length - |idx|\<close>, and not below \<open>0\<close>.
\<close>

theorem moveTask_lists:
  assumes t: "tasks (board s) taskId = Some t"
    and mem: "taskId \<in> set (taskIds (columns (board s) src))"
  shows "(let removed = remove1 taskId (taskIds (columns (board s) src));
          target = (if src = dst then removed else taskIds (columns (board s) dst));
          k = (if idx < 0 then length target - nat (- idx) else min (nat idx) (length target))
      in listOf dst (moveTask now taskId src dst idx r s) = Inr (take k target @ taskId # drop k target)
         \<and> (src \<noteq> dst \<longrightarrow> listOf src (moveTask now taskId src dst idx r s) = Inr removed)
         \<and> (0 \<le> idx \<longrightarrow> listOf dst (moveTask now taskId src dst idx r s)
                = Inr (insertClamped target idx taskId)))"
  using moveTask_result[OF t mem, of dst now idx r]
  by (simp add: Let_def splice_insert actualStart_alt insertClamped_nonneg[symmetric])

lemma demo_t4: "\<exists>t. tasks (board demoStore) ''t4'' = Some t"
  using seed_task_demo by (simp add: demoStore_def initStore_def)

lemma demo_lists:
  "taskIds (columns (board demoStore) Todo) = [''t1'', ''t2'', ''t3'']"
  "taskIds (columns (board demoStore) InProgress) = [''t4'', ''t5'']"
  "taskIds (columns (board demoStore) Done) = [''t6'']"
  by (simp_all add: demoStore_def initStore_def seed_lists_demo)

text \<open>
  Claim C5 as stated fails for a negative index: moving \<open>t4\<close> to index \<open>-1\<close> of the
  list \<open>[t1, t2, t3]\<close> puts it before the last element, where clamping to the range
  \<open>[0, length]\<close> would put it first.
\<close>

theorem moveTask_negative_index_counterexample:
  "listOf Todo (moveTask ''2026-01-16T10:00:00.000Z'' ''t4'' InProgress Todo (- 1) demoStore demoStore)
     = Inr [''t1'', ''t2'', ''t4'', ''t3'']
   \<and> insertClamped [''t1'', ''t2'', ''t3''] (- 1) ''t4'' = [''t4'', ''t1'', ''t2'', ''t3'']"
proof -
  from demo_t4 obtain t where t: "tasks (board demoStore) ''t4'' = Some t" by blast
  have mem: "''t4'' \<in> set (taskIds (columns (board demoStore) InProgress))"
    by (simp add: demo_lists)
  from moveTask_result(1)[OF t mem, of Todo "''2026-01-16T10:00:00.000Z''" "- 1" demoStore]
  show ?thesis
    by (simp add: demo_lists splice_insert actualStart_def insertClamped_def)
qed

theorem moveTask_lists_witness:
  "listOf Todo (moveTask ''2026-01-16T10:00:00.000Z'' ''t4'' InProgress Todo 7 demoStore demoStore)
     = Inr [''t1'', ''t2'', ''t3'', ''t4'']
   \<and> listOf InProgress (moveTask ''2026-01-16T10:00:00.000Z'' ''t4'' InProgress Todo 7 demoStore demoStore)
     = Inr [''t5'']
   \<and> insertClamped [''t1'', ''t2'', ''t3''] 7 ''t4'' = [''t1'', ''t2'', ''t3'', ''t4'']"
proof -
  from demo_t4 obtain t where t: "tasks (board demoStore) ''t4'' = Some t" by blast
  have mem: "''t4'' \<in> set (taskIds (columns (board demoStore) InProgress))"
    by (simp add: demo_lists)
  from moveTask_lists[OF t mem, of Todo 7 "''2026-01-16T10:00:00.000Z''" demoStore]
  show ?thesis
    by (simp add: Let_def demo_lists insertClamped_def)
qed

lemma updateTask_absent:
  "tasks (board s) i = None \<Longrightarrow>
     taskOf i (updateTask i u r s) = Inr (Some (spread emptyObj u))"
  by (simp add: updateTask_def taskOf_def setBoard_def pushHistory_def updateTask_upd_def
      spreadTask_def)

lemma moveTask_absent_done:
  "tasks (board s) i = None \<Longrightarrow> listOf c (moveTask now i src Done idx r s) = Inl TypeError"
  by (simp add: moveTask_def listOf_def setBoard_def pushHistory_def moveTask_upd_def Let_def)

lemma moveTask_absent_other:
  assumes "tasks (board s) i = None" "dst \<noteq> Done" "src \<noteq> dst"
  shows "listOf src (moveTask now i src dst idx r s) =
     Inr (splice_js (taskIds (columns (board s) src)) (indexOf (taskIds (columns (board s) src)) i) 1 [])"
   and "listOf dst (moveTask now i src dst idx r s) =
     Inr (splice_js (taskIds (columns (board s) dst)) idx 0 [i])"
   and "taskOf i (moveTask now i src dst idx r s) =
     Inr (Some (emptyObj\<lparr>columnId := Some dst, completedAt := Some None\<rparr>))"
  using assms
  by (simp_all add: moveTask_def listOf_def taskOf_def setBoard_def pushHistory_def
      moveTask_upd_def Let_def spreadTask_def)

lemma demo_ghost: "tasks (board demoStore) ''ghost'' = None"
  using seed_tasks[of demoEnv] by (auto simp: demoStore_def initStore_def demoEnv_def)

text \<open>
  Claim C4 on the seed board, for the identifier \<open>ghost\<close> that no task has:
  \<open>updateTask\<close> stores an object with the updated fields only under that identifier;
  \<open>moveTask\<close> to \<open>Done\<close> throws a \<^verbatim>\<open>TypeError\<close>; \<open>moveTask\<close> to another column drops
  the last identifier of the source list, lists \<open>ghost\<close> in the destination and stores an
  object with \<open>columnId\<close> and \<open>completedAt\<close> only.
\<close>

theorem missing_id_not_a_noop:
  "taskOf ''ghost'' (Inr demoStore) = Inr None
   \<and> taskOf ''ghost'' (updateTask ''ghost'' (noUpdates\<lparr>u_title := Some ''x''\<rparr>) demoStore demoStore)
       = Inr (Some (emptyObj\<lparr>title := Some ''x''\<rparr>))
   \<and> listOf Todo (moveTask ''2026-01-16T10:00:00.000Z'' ''ghost'' Todo Done 0 demoStore demoStore)
       = Inl TypeError
   \<and> listOf Todo (Inr demoStore) = Inr [''t1'', ''t2'', ''t3'']
   \<and> listOf Todo (moveTask ''2026-01-16T10:00:00.000Z'' ''ghost'' Todo InProgress 0 demoStore demoStore)
       = Inr [''t1'', ''t2'']
   \<and> listOf InProgress (moveTask ''2026-01-16T10:00:00.000Z'' ''ghost'' Todo InProgress 0 demoStore demoStore)
       = Inr [''ghost'', ''t4'', ''t5'']
   \<and> taskOf ''ghost'' (moveTask ''2026-01-16T10:00:00.000Z'' ''ghost'' Todo InProgress 0 demoStore demoStore)
       = Inr (Some (emptyObj\<lparr>columnId := Some InProgress, completedAt := Some None\<rparr>))"
proof -
  note g = demo_ghost
  have 1: "taskOf ''ghost'' (Inr demoStore) = Inr None" by (simp add: taskOf_def g)
  have 2: "taskOf ''ghost'' (updateTask ''ghost'' (noUpdates\<lparr>u_title := Some ''x''\<rparr>) demoStore demoStore)
       = Inr (Some (emptyObj\<lparr>title := Some ''x''\<rparr>))"
    by (simp add: updateTask_absent[OF g] spread_def override_def noUpdates_def emptyObj_def)
  have 4: "listOf Todo (Inr demoStore) = Inr [''t1'', ''t2'', ''t3'']"
    by (simp add: listOf_def demo_lists)
  have 5: "listOf Todo (moveTask ''2026-01-16T10:00:00.000Z'' ''ghost'' Todo InProgress 0 demoStore demoStore)
       = Inr [''t1'', ''t2'']"
    by (simp add: moveTask_absent_other(1)[OF g] demo_lists splice_js_def actualStart_def Let_def)
  have 6: "listOf InProgress (moveTask ''2026-01-16T10:00:00.000Z'' ''ghost'' Todo InProgress 0 demoStore demoStore)
       = Inr [''ghost'', ''t4'', ''t5'']"
    by (simp add: moveTask_absent_other(2)[OF g] demo_lists splice_js_def actualStart_def Let_def)
  have 7: "taskOf ''ghost'' (moveTask ''2026-01-16T10:00:00.000Z'' ''ghost'' Todo InProgress 0 demoStore demoStore)
       = Inr (Some (emptyObj\<lparr>columnId := Some InProgress, completedAt := Some None\<rparr>))"
    by (simp add: moveTask_absent_other(3)[OF g])
  from 1 2 4 5 6 7 moveTask_absent_done[OF g] show ?thesis by simp
qed

section \<open>Calls with a closure or a dialog that is out of date\<close>

lemma updateTask_eq:
  "updateTask i u r s =
     Inr \<lparr>board = updateTask_upd i u (board s),
          history = drop (length (history s) - 49) (history s) @ [board r], future = []\<rparr>"
  by (simp add: updateTask_def setBoard_pushHistory)

lemma moveTask_eq:
  "moveTask_upd now i src dst idx (board s) = Inr b' \<Longrightarrow>
     moveTask now i src dst idx r s =
       Inr \<lparr>board = b', history = drop (length (history s) - 49) (history s) @ [board r],
            future = []\<rparr>"
  by (simp add: moveTask_def setBoard_pushHistory)

lemma demoStore_stacks: "history demoStore = []" "future demoStore = []"
  by (simp_all add: demoStore_def initStore_def)

lemma demo_t1: "tasks (board demoStore) ''t1'' = Some (asObject editT1)"
  by (simp add: demoStore_def initStore_def createDefaultBoard_def sampleTasks_def demoEnv_def
      mkTask_def asObject_def editT1_def)

lemma demoIso_2: "take 10 (demoIso 2) = ''2026-01-17''"
  by code_simp

lemma submit_t1:
  "handleSubmit ((openModal (Some editT1) Todo)\<lparr>m_columnId := c\<rparr>) = Some (formT1 c)"
  by (simp add: handleSubmit_def openModal_def editT1_def formT1_def trim_def isSpace_def
      demoIso_2)

lemma submit_t1_untouched: "handleSubmit (openModal (Some editT1) Todo) = Some (formT1 Todo)"
  using submit_t1[of Todo] by (simp add: openModal_def editT1_def)

lemma boardInv_demo: "boardInv (board demoStore)"
  using boardInv_seed[of demoEnv]
  by (simp add: demoStore_def initStore_def seedIds_def demoEnv_def)

text \<open>The move of \<open>t1\<close> from \<open>Todo\<close> to the end of \<open>Done\<close> on the seed board.\<close>

lemma demo_move_t1:
  "\<exists>b1. moveTask now ''t1'' Todo Done 1 r demoStore = Inr \<lparr>board = b1, history = [board r], future = []\<rparr>
     \<and> taskIds (columns b1 Todo) = [''t2'', ''t3'']
     \<and> taskIds (columns b1 InProgress) = [''t4'', ''t5'']
     \<and> taskIds (columns b1 Done) = [''t6'', ''t1'']
     \<and> (\<exists>t. tasks b1 ''t1'' = Some t)"
proof -
  have mem: "''t1'' \<in> set (taskIds (columns (board demoStore) Todo))"
    by (simp add: demo_lists)
  have ne: "Todo \<noteq> Done" by simp
  note eq = moveTask_upd_diff[OF demo_t1 mem ne, of now 1]
  from moveTask_eq[OF eq, of r] show ?thesis
    by (simp add: demoStore_stacks demo_lists splice_insert actualStart_def)
qed

text \<open>The deletion of \<open>t1\<close> on the seed board.\<close>

lemma demo_delete_t1:
  "\<exists>b1. deleteTask ''t1'' r demoStore = Inr \<lparr>board = b1, history = [board r], future = []\<rparr>
     \<and> tasks b1 ''t1'' = None"
proof -
  have "\<exists>b1. deleteTask_upd ''t1'' (board demoStore) = Inr b1 \<and> tasks b1 ''t1'' = None"
    by (simp add: deleteTask_upd_def demo_t1 asObject_def editT1_def)
  then obtain b1 where b1: "deleteTask_upd ''t1'' (board demoStore) = Inr b1" "tasks b1 ''t1'' = None"
    by blast
  from setBoard_pushHistory[of "deleteTask_upd ''t1''", OF b1(1), of "board r"] b1(2)
  show ?thesis by (simp add: deleteTask_def demoStore_stacks)
qed

text \<open>
  Claim C1 on the seed board. The edit dialog is opened on \<open>t1\<close>, which is in \<open>Todo\<close>;
  while it is open the chatbot executes the action that moves \<open>t1\<close> to \<open>Done\<close>; then the
  dialog is submitted with nothing changed. \<open>handleSaveTask\<close> compares the column of
  the task object it stored when the dialog opened with the column of the form, finds
  them equal, does not call \<open>moveTask\<close>, and \<open>updateTask\<close> writes the column \<open>Todo\<close>
  into the task. Before, the board has the invariant; afterwards \<open>t1\<close> is listed in
  \<open>Done\<close> and in no other column, its \<open>columnId\<close> is \<open>Todo\<close>, and the invariant is
  broken.
\<close>

theorem stale_edit_dialog_breaks_invariant:
  "(let moved = fresh (executeAction ''t7'' ''2026-01-16T10:00:00.000Z'' ''2026-01-16T10:00:00.001Z''
                         (Move ''t1'' Todo Done)) demoStore;
        saved = andThen moved
                  (fresh (handleSaveTask ''t8'' ''2026-01-16T10:05:00.000Z'' ''2026-01-16T10:05:00.001Z''
                            (Some editT1) (formT1 Todo)))
    in taskOf ''t1'' (Inr demoStore) = Inr (Some (asObject editT1))
       \<and> invOf (Inr demoStore) = Inr True
       \<and> handleSubmit (openModal (Some editT1) Todo) = Some (formT1 Todo)
       \<and> listOf Todo saved = Inr [''t2'', ''t3'']
       \<and> listOf InProgress saved = Inr [''t4'', ''t5'']
       \<and> listOf Done saved = Inr [''t6'', ''t1'']
       \<and> columnIdOf ''t1'' saved = Inr (Some Todo)
       \<and> invOf saved = Inr False)"
proof -
  let ?n = "''2026-01-16T10:00:00.000Z''"
  let ?u = "updatesOf (formT1 Todo)"
  from demo_move_t1[of ?n demoStore] obtain b1 t where
    mv: "moveTask ?n ''t1'' Todo Done 1 demoStore demoStore
           = Inr \<lparr>board = b1, history = [board demoStore], future = []\<rparr>"
    and l: "taskIds (columns b1 Todo) = [''t2'', ''t3'']"
           "taskIds (columns b1 InProgress) = [''t4'', ''t5'']"
           "taskIds (columns b1 Done) = [''t6'', ''t1'']"
    and t: "tasks b1 ''t1'' = Some t"
    by blast
  let ?s1 = "\<lparr>board = b1, history = [board demoStore], future = []\<rparr>"
  let ?b2 = "updateTask_upd ''t1'' ?u b1"
  let ?s2 = "\<lparr>board = ?b2, history = [board demoStore, b1], future = []\<rparr>"
  have moved: "fresh (executeAction ''t7'' ?n ''2026-01-16T10:00:00.001Z'' (Move ''t1'' Todo Done)) demoStore
       = Inr ?s1"
    by (simp add: fresh_def executeAction_def demo_lists mv)
  have upd: "updateTask ''t1'' ?u ?s1 ?s1 = Inr ?s2"
    by (simp add: updateTask_eq)
  have saved: "andThen (Inr ?s1)
       (fresh (handleSaveTask ''t8'' ''2026-01-16T10:05:00.000Z'' ''2026-01-16T10:05:00.001Z''
                 (Some editT1) (formT1 Todo))) = Inr ?s2"
    unfolding andThen_def fresh_def handleSaveTask_def
    by (simp add: editT1_def formT1_def upd[unfolded formT1_def])
  have cols: "columns ?b2 = columns b1" by (simp add: updateTask_upd_def)
  have c2: "\<exists>t2. tasks ?b2 ''t1'' = Some t2 \<and> columnId t2 = Some Todo"
    by (simp add: updateTask_upd_def t spreadTask_def spread_def override_def updatesOf_def
        formT1_def)
  have ninv: "\<not> boardInv ?b2"
  proof
    assume inv: "boardInv ?b2"
    from c2 obtain t2 where t2: "tasks ?b2 ''t1'' = Some t2" "columnId t2 = Some Todo" by blast
    from boardInv_task[OF inv t2(1)] t2(2) have "''t1'' \<in> set (taskIds (columns ?b2 Todo))"
      by auto
    then show False by (simp add: cols l)
  qed
  have 1: "taskOf ''t1'' (Inr demoStore) = Inr (Some (asObject editT1))"
    by (simp add: taskOf_def demo_t1)
  have 2: "invOf (Inr demoStore) = Inr True" by (simp add: invOf_def boardInv_demo)
  have 4: "listOf Todo (Inr ?s2) = Inr [''t2'', ''t3'']" by (simp add: listOf_def cols l)
  have 5: "listOf InProgress (Inr ?s2) = Inr [''t4'', ''t5'']" by (simp add: listOf_def cols l)
  have 6: "listOf Done (Inr ?s2) = Inr [''t6'', ''t1'']" by (simp add: listOf_def cols l)
  have 7: "columnIdOf ''t1'' (Inr ?s2) = Inr (Some Todo)"
    using c2 by (auto simp: columnIdOf_def)
  have 8: "invOf (Inr ?s2) = Inr False" using ninv by (simp add: invOf_def)
  show ?thesis
    unfolding Let_def moved saved using 1 2 submit_t1_untouched 4 5 6 7 8 by simp
qed

text \<open>
  Claim C2 on the seed board. The edit dialog of \<open>t1\<close> is submitted with the column
  changed to \<open>Done\<close>. \<open>handleSaveTask\<close> calls \<open>moveTask\<close> and then \<open>updateTask\<close>, both
  callbacks of one render, so both push the board of that render: the history ends
  with the seed board twice. \<open>undo\<close> after \<open>updateTask\<close> gives the seed board, not the
  board after the move, which is the board that \<open>updateTask\<close> changed; a second
  \<open>undo\<close> gives the seed board again.
\<close>

theorem save_with_move_undo_skips_prior_board:
  "(let moved = moveTask ''2026-01-16T10:00:00.000Z'' ''t1'' Todo Done 1 demoStore demoStore;
        saved = fresh (handleSaveTask ''t7'' ''2026-01-16T10:00:00.000Z'' ''2026-01-16T10:00:00.001Z''
                         (Some editT1) (formT1 Done)) demoStore
    in handleSubmit ((openModal (Some editT1) Todo)\<lparr>m_columnId := Done\<rparr>) = Some (formT1 Done)
       \<and> saved = andThen moved (updateTask ''t1'' (updatesOf (formT1 Done)) demoStore)
       \<and> historyOf saved = Inr [board demoStore, board demoStore]
       \<and> futureOf saved = Inr []
       \<and> boardOf moved \<noteq> Inr (board demoStore)
       \<and> boardOf (thenUndo saved) = Inr (board demoStore)
       \<and> boardOf (thenUndo (thenUndo saved)) = Inr (board demoStore))"
proof -
  let ?n = "''2026-01-16T10:00:00.000Z''"
  let ?u = "updatesOf (formT1 Done)"
  let ?B = "board demoStore"
  from demo_move_t1[of ?n demoStore] obtain b1 where
    mv: "moveTask ?n ''t1'' Todo Done 1 demoStore demoStore
           = Inr \<lparr>board = b1, history = [?B], future = []\<rparr>"
    and l: "taskIds (columns b1 Done) = [''t6'', ''t1'']"
    by blast
  let ?s1 = "\<lparr>board = b1, history = [?B], future = []\<rparr>"
  let ?b2 = "updateTask_upd ''t1'' ?u b1"
  let ?s2 = "\<lparr>board = ?b2, history = [?B, ?B], future = []\<rparr>"
  have upd: "updateTask ''t1'' ?u demoStore ?s1 = Inr ?s2"
    by (simp add: updateTask_eq)
  have chain: "andThen (Inr ?s1) (updateTask ''t1'' ?u demoStore) = Inr ?s2"
    by (simp add: andThen_def upd)
  have saved: "fresh (handleSaveTask ''t7'' ?n ''2026-01-16T10:00:00.001Z'' (Some editT1) (formT1 Done))
       demoStore = andThen (Inr ?s1) (updateTask ''t1'' ?u demoStore)"
    unfolding fresh_def handleSaveTask_def
    by (simp add: editT1_def demo_lists mv[unfolded editT1_def] formT1_def)
  have ne: "b1 \<noteq> ?B"
  proof
    assume "b1 = ?B"
    with l have "taskIds (columns ?B Done) = [''t6'', ''t1'']" by simp
    then show False by (simp add: demo_lists)
  qed
  have u1: "undo ?s2 ?s2 = \<lparr>board = ?B, history = [?B], future = [?b2]\<rparr>"
    by (simp add: undo_def Let_def slice_butlast)
  have u2: "board (undo \<lparr>board = ?B, history = [?B], future = [?b2]\<rparr>
                        \<lparr>board = ?B, history = [?B], future = [?b2]\<rparr>) = ?B"
    by (simp add: undo_def Let_def slice_butlast)
  show ?thesis
    unfolding Let_def saved mv chain
    using submit_t1[of Done] ne
    by (simp add: historyOf_def futureOf_def boardOf_def thenUndo_def u1 u2)
qed

text \<open>
  Claim C10 on the seed board. A message to delete \<open>t1\<close> is sent to the chatbot, whose
  timer keeps the callbacks of that render; before the timer runs, \<open>t1\<close> is deleted
  from its card. When the timer calls \<open>deleteTask\<close>, no task has the identifier: the
  board stays as it is and the redo stack is emptied, but the entry pushed is the
  seed board that the closure holds, not the board before the call, and \<open>undo\<close> gives
  the seed board, which is not the current board.
\<close>

theorem stale_delete_pushes_stale_board:
  "(let first = fresh (deleteTask ''t1'') demoStore;
        again = andThen first
                  (executeAction ''t7'' ''2026-01-16T10:00:00.000Z'' ''2026-01-16T10:00:00.001Z''
                     (Delete ''t1'') demoStore)
    in taskOf ''t1'' first = Inr None
       \<and> boardOf again = boardOf first
       \<and> historyOf again = Inr [board demoStore, board demoStore]
       \<and> futureOf again = Inr []
       \<and> boardOf first \<noteq> Inr (board demoStore)
       \<and> boardOf (thenUndo again) = Inr (board demoStore))"
proof -
  let ?B = "board demoStore"
  from demo_delete_t1[of demoStore] obtain b1 where
    d: "deleteTask ''t1'' demoStore demoStore = Inr \<lparr>board = b1, history = [?B], future = []\<rparr>"
    and n: "tasks b1 ''t1'' = None"
    by blast
  let ?s1 = "\<lparr>board = b1, history = [?B], future = []\<rparr>"
  let ?s2 = "\<lparr>board = b1, history = [?B, ?B], future = []\<rparr>"
  have first: "fresh (deleteTask ''t1'') demoStore = Inr ?s1"
    by (simp add: fresh_def d)
  have "tasks (board ?s1) ''t1'' = None" using n by simp
  from deleteTask_absent[OF this, of demoStore]
  have again: "andThen (Inr ?s1)
      (executeAction ''t7'' ''2026-01-16T10:00:00.000Z'' ''2026-01-16T10:00:00.001Z''
         (Delete ''t1'') demoStore) = Inr ?s2"
    by (simp add: andThen_def executeAction_def)
  have ne: "b1 \<noteq> ?B" using n demo_t1 by auto
  have u: "board (undo ?s2 ?s2) = ?B"
    by (simp add: undo_def Let_def slice_butlast)
  show ?thesis
    unfolding Let_def first again using n ne u
    by (simp add: taskOf_def boardOf_def historyOf_def futureOf_def thenUndo_def)
qed

section \<open>The task matcher\<close>

lemma set_insertBy: "set (insertBy cmp x ys) = insert x (set ys)"
  by (induction ys) auto

lemma set_sortBy: "set (sortBy cmp xs) = set xs"
  unfolding sortBy_def by (induction xs) (simp_all add: set_insertBy)

lemma sorted_insertBy:
  assumes tot: "\<And>a b. cmp a b \<le> 0 \<or> cmp b a \<le> 0"
    and trans: "\<And>a b c. cmp a b \<le> 0 \<Longrightarrow> cmp b c \<le> 0 \<Longrightarrow> cmp a c \<le> 0"
  shows "sorted_wrt (\<lambda>a b. cmp a b \<le> 0) ys \<Longrightarrow> sorted_wrt (\<lambda>a b. cmp a b \<le> 0) (insertBy cmp x ys)"
proof (induction ys)
  case Nil
  then show ?case by simp
next
  case (Cons y ys)
  show ?case
  proof (cases "cmp x y \<le> 0")
    case True
    with Cons.prems trans[of x y] show ?thesis by auto
  next
    case False
    with tot[of x y] have yx: "cmp y x \<le> 0" by simp
    from Cons have "sorted_wrt (\<lambda>a b. cmp a b \<le> 0) (insertBy cmp x ys)" by simp
    with Cons.prems yx False show ?thesis by (auto simp: set_insertBy)
  qed
qed

lemma sorted_sortBy:
  assumes tot: "\<And>a b. cmp a b \<le> 0 \<or> cmp b a \<le> 0"
    and trans: "\<And>a b c. cmp a b \<le> 0 \<Longrightarrow> cmp b c \<le> 0 \<Longrightarrow> cmp a c \<le> 0"
  shows "sorted_wrt (\<lambda>a b. cmp a b \<le> 0) (sortBy cmp xs)"
  unfolding sortBy_def
proof (induction xs)
  case Nil
  then show ?case by simp
next
  case (Cons x xs)
  from sorted_insertBy[of cmp, OF tot trans Cons] show ?case by simp
qed

lemma sortedByLength_sorted:
  "sorted_wrt (\<lambda>a b. length (v_title b) \<le> length (v_title a)) (sortedByLength xs)"
proof -
  let ?cmp = "\<lambda>a b. (of_nat (length (v_title b)) - of_nat (length (v_title a)) :: rat)"
  have "sorted_wrt (\<lambda>a b. ?cmp a b \<le> 0) (sortBy ?cmp xs)"
    by (rule sorted_sortBy) auto
  then show ?thesis by (simp add: sortedByLength_def)
qed

lemma set_sortedByLength: "set (sortedByLength xs) = set xs"
  by (simp add: sortedByLength_def set_sortBy)

lemma find_first:
  "find P xs = Some x \<Longrightarrow> \<exists>ys zs. xs = ys @ x # zs \<and> P x \<and> (\<forall>y \<in> set ys. \<not> P y)"
proof (induction xs)
  case Nil
  then show ?case by simp
next
  case (Cons a xs)
  show ?case
  proof (cases "P a")
    case True
    with Cons.prems have "a = x" by simp
    with True show ?thesis by (intro exI[of _ "[]"] exI[of _ xs]) simp
  next
    case False
    with Cons obtain ys zs where "xs = ys @ x # zs" "P x" "\<forall>y \<in> set ys. \<not> P y" by auto
    with False show ?thesis by (intro exI[of _ "a # ys"] exI[of _ zs]) simp
  qed
qed

lemma length_toLowerCase [simp]: "length (toLowerCase s) = length s"
  by (simp add: toLowerCase_def)

lemma substringStage_longest:
  assumes t0: "t0 \<in> set allTasks" "titleIn lower t0"
  shows "\<exists>t. substringStage lower allTasks = Some t \<and> t \<in> set allTasks \<and> titleIn lower t
     \<and> (\<forall>t' \<in> set allTasks. titleIn lower t' \<longrightarrow> length (v_title t') \<le> length (v_title t))"
proof -
  let ?P = "\<lambda>task. let titleLower = toLowerCase (v_title task)
                   in length titleLower \<ge> 3 \<and> includes_str lower titleLower"
  have P: "?P t = titleIn lower t" for t by (simp add: titleIn_def Let_def)
  from t0 have "\<exists>x \<in> set (sortedByLength allTasks). ?P x"
    unfolding P set_sortedByLength by blast
  then have "find ?P (sortedByLength allTasks) \<noteq> None" by (auto simp: find_None_iff)
  then obtain t where t: "find ?P (sortedByLength allTasks) = Some t" by auto
  from find_first[OF t] obtain ys zs where
    split: "sortedByLength allTasks = ys @ t # zs" and Pt: "?P t" and nys: "\<forall>y \<in> set ys. \<not> ?P y"
    by blast
  from sortedByLength_sorted[of allTasks] split
  have after: "\<forall>z \<in> set zs. length (v_title z) \<le> length (v_title t)"
    by (simp add: sorted_wrt_append)
  have mem: "t \<in> set allTasks"
    using split set_sortedByLength[of allTasks] by auto
  have "\<forall>t' \<in> set allTasks. titleIn lower t' \<longrightarrow> length (v_title t') \<le> length (v_title t)"
  proof (intro ballI impI)
    fix t' assume "t' \<in> set allTasks" "titleIn lower t'"
    then have "t' \<in> set (ys @ t # zs)" "?P t'"
      using split set_sortedByLength[of allTasks] P by auto
    with nys after show "length (v_title t') \<le> length (v_title t)" by auto
  qed
  with t Pt mem show ?thesis unfolding substringStage_def P by blast
qed

text \<open>
  Claim C6. When the quoted stage does not decide and the lower-case title of some task,
  of at least three characters, is a substring of the lower-case text, the matcher
  resolves to a task with such a title, and no task with such a title has a longer one.
  For the tasks ``Fix login bug'' and ``Fix login'' and the text ``fix login bug'' this is
  the task ``Fix login bug''. Text and titles are strings of the characters U+0000 to
  U+00FF, on which \<open>toLowerCase\<close> is the function of JavaScript.
\<close>

theorem exact_substring_longest:
  assumes q: "quotedStage message allTasks = None"
    and t0: "t0 \<in> set allTasks" "3 \<le> length (toLowerCase (v_title t0))"
      "includes_str (toLowerCase message) (toLowerCase (v_title t0))"
  shows "\<exists>t. findTaskInMessage message allTasks = (Some t, []) \<and> t \<in> set allTasks
     \<and> 3 \<le> length (toLowerCase (v_title t))
     \<and> includes_str (toLowerCase message) (toLowerCase (v_title t))
     \<and> (\<forall>t' \<in> set allTasks.
           3 \<le> length (toLowerCase (v_title t'))
           \<and> includes_str (toLowerCase message) (toLowerCase (v_title t'))
           \<longrightarrow> length (toLowerCase (v_title t')) \<le> length (toLowerCase (v_title t)))"
proof -
  from t0 have "titleIn (toLowerCase message) t0" by (simp add: titleIn_def)
  from substringStage_longest[OF t0(1) this] obtain t where
    t: "substringStage (toLowerCase message) allTasks = Some t" "t \<in> set allTasks"
       "titleIn (toLowerCase message) t"
       "\<forall>t' \<in> set allTasks. titleIn (toLowerCase message) t' \<longrightarrow> length (v_title t') \<le> length (v_title t)"
    by blast
  from t0(1) have ne: "length allTasks \<noteq> 0" by auto
  have "findTaskInMessage message allTasks = (Some t, [])"
    using ne q t(1) by (simp add: findTaskInMessage_def Let_def)
  with t(2,3,4) show ?thesis unfolding titleIn_def by (intro exI[of _ t]) simp
qed

lemma demo_quoted: "quotedStage ''fix login bug'' [demoTask ''1'' ''Fix login'', demoTask ''2'' ''Fix login bug''] = None"
  by code_simp

lemma demo_titles:
  "toLowerCase ''Fix login bug'' = ''fix login bug''"
  "toLowerCase ''Fix login'' = ''fix login''"
  "toLowerCase ''fix login bug'' = ''fix login bug''"
  by code_simp+

lemma demo_includes:
  "includes_str ''fix login bug'' ''fix login bug''"
  "includes_str ''fix login bug'' ''fix login''"
  by code_simp+

theorem exact_substring_longest_witness:
  "findTaskInMessage ''fix login bug'' [demoTask ''1'' ''Fix login'', demoTask ''2'' ''Fix login bug'']
     = (Some (demoTask ''2'' ''Fix login bug''), [])"
proof -
  let ?a = "demoTask ''1'' ''Fix login''" and ?b = "demoTask ''2'' ''Fix login bug''"
  have ta: "v_title ?a = ''Fix login''" and tb: "v_title ?b = ''Fix login bug''"
    by (simp_all add: demoTask_def)
  have h2: "?b \<in> set [?a, ?b]" by simp
  have h3: "3 \<le> length (toLowerCase (v_title ?b))" by (simp add: tb)
  have h4: "includes_str (toLowerCase ''fix login bug'') (toLowerCase (v_title ?b))"
    by (simp only: tb demo_titles demo_includes)
  from exact_substring_longest[OF demo_quoted h2 h3 h4] obtain t where
    t: "findTaskInMessage ''fix login bug'' [?a, ?b] = (Some t, [])" "t \<in> set [?a, ?b]"
    and mx: "\<forall>t' \<in> set [?a, ?b].
           3 \<le> length (toLowerCase (v_title t'))
           \<and> includes_str (toLowerCase ''fix login bug'') (toLowerCase (v_title t'))
           \<longrightarrow> length (toLowerCase (v_title t')) \<le> length (toLowerCase (v_title t))"
    by blast
  from mx h2 h3 h4 have "length (toLowerCase (v_title ?b)) \<le> length (toLowerCase (v_title t))"
    by blast
  with t(2) have "t = ?b" by (auto simp: ta tb)
  with t(1) show ?thesis by simp
qed

text \<open>
  The rounding against the doubles that the literals and quotients denote, and the
  result of the third stage when two or more tasks pass its filter: the list is ranked
  by score and then by match count, and the test on its first two elements decides.
\<close>

lemma fl_known_doubles:
  "fl (1 / 10) = 3602879701896397 / 36028797018963968"
  "fl (3 / 10) = 5404319552844595 / 18014398509481984"
  "fl (3 / 5) = 5404319552844595 / 9007199254740992"
  "fl (6 / 5) = 5404319552844595 / 4503599627370496"
  "fl (1 / 2) = 1 / 2"
  by code_simp+

lemma slice_take5: "slice xs 0 5 = take 5 xs"
  by (simp add: slice_def actualStart_def Let_def min_def)

lemma byScore_le:
  "byScore a b \<le> 0 \<longleftrightarrow>
     s_score b < s_score a \<or> (s_score b = s_score a \<and> s_matchCount b \<le> s_matchCount a)"
  by (auto simp: byScore_def)

lemma scored_ranked:
  "sorted_wrt (\<lambda>a b. s_score b < s_score a \<or> (s_score b = s_score a \<and> s_matchCount b \<le> s_matchCount a))
     (scored lower allTasks)"
proof -
  have "sorted_wrt (\<lambda>a b. byScore a b \<le> 0) (sortBy byScore xs)" for xs
    by (rule sorted_sortBy) (auto simp: byScore_le)
  then show ?thesis by (simp add: scored_def byScore_le)
qed

lemma overlapStage_two_or_more:
  assumes "scored lower allTasks = best # runner # rest"
  shows "overlapStage lower allTasks =
      (if fl (3 / 5) \<le> s_score best \<and> fl (s_score runner * fl (6 / 5)) < s_score best
       then (Some (s_task best), [])
       else (None, map s_task (take 5 (best # runner # rest))))"
    and "\<forall>s \<in> set (runner # rest).
           s_score s < s_score best \<or> (s_score s = s_score best \<and> s_matchCount s \<le> s_matchCount best)"
proof -
  show "overlapStage lower allTasks =
      (if fl (3 / 5) \<le> s_score best \<and> fl (s_score runner * fl (6 / 5)) < s_score best
       then (Some (s_task best), [])
       else (None, map s_task (take 5 (best # runner # rest))))"
    using assms by (simp add: overlapStage_def Let_def slice_take5)
  from scored_ranked[of lower allTasks] assms
  show "\<forall>s \<in> set (runner # rest).
           s_score s < s_score best \<or> (s_score s = s_score best \<and> s_matchCount s \<le> s_matchCount best)"
    by simp
qed

lemma overlap_demo_stages:
  "quotedStage ''alpha beta gamma delta'' [taskFive, taskThree] = None"
  "substringStage ''alpha beta gamma delta'' [taskFive, taskThree] = None"
  by code_simp+

lemma overlap_demo_scored:
  "scored ''alpha beta gamma delta'' [taskFive, taskThree] =
     [\<lparr>s_task = taskFive, s_score = fl (4 / 5), s_matchCount = 4\<rparr>,
      \<lparr>s_task = taskThree, s_score = fl (2 / 3), s_matchCount = 2\<rparr>]"
  by code_simp

lemma overlap_demo_result:
  "findTaskInMessage ''alpha beta gamma delta'' [taskFive, taskThree] = (Some taskFive, [])"
  by code_simp

lemma overlap_demo_doubles:
  "fl (3 / 5) \<le> fl (4 / 5)" "fl (fl (2 / 3) * fl (6 / 5)) < fl (4 / 5)"
  by code_simp+

text \<open>
  Claim C7 at the tasks ``alpha beta gamma delta omega'' and ``alpha beta sigma'' and the
  text ``alpha beta gamma delta'': neither earlier stage decides, both tasks pass the
  filter with the scores \<open>4/5\<close> and \<open>2/3\<close>, and \<open>4/5\<close> is exactly, not more than, 20%
  above \<open>2/3\<close>. In doubles the product \<open>(2/3) * 1.2\<close> rounds to a number below \<open>0.8\<close>, so
  the test of the source holds and the first task resolves.
\<close>

theorem overlap_exact_margin_resolves:
  "quotedStage ''alpha beta gamma delta'' [taskFive, taskThree] = None
   \<and> substringStage ''alpha beta gamma delta'' [taskFive, taskThree] = None
   \<and> scored ''alpha beta gamma delta'' [taskFive, taskThree] =
       [\<lparr>s_task = taskFive, s_score = fl (4 / 5), s_matchCount = 4\<rparr>,
        \<lparr>s_task = taskThree, s_score = fl (2 / 3), s_matchCount = 2\<rparr>]
   \<and> fl (fl (2 / 3) * fl (6 / 5)) < fl (4 / 5)
   \<and> \<not> ((2 / 3) * (6 / 5) < (4 / 5 :: rat))
   \<and> findTaskInMessage ''alpha beta gamma delta'' [taskFive, taskThree] = (Some taskFive, [])"
  using overlap_demo_stages overlap_demo_scored overlap_demo_result overlap_demo_doubles(2)
  by simp

section \<open>The date phrase resolver\<close>

text \<open>
  The date printed for ``today'' is the UTC day of the local midnight: the local day west
  of UTC and at UTC, the day before it east of UTC.
\<close>

lemma local_midnight_utc_day:
  "0 < tzaMs env \<Longrightarrow> tzaMs env \<le> msPerDay \<Longrightarrow> setHours0 env t div msPerDay = localDay env t - 1"
  "- msPerDay < tzaMs env \<Longrightarrow> tzaMs env \<le> 0 \<Longrightarrow> setHours0 env t div msPerDay = localDay env t"
proof -
  assume a: "0 < tzaMs env" "tzaMs env \<le> msPerDay"
  have "(localDay env t * msPerDay - tzaMs env) div msPerDay = localDay env t - 1"
  proof (rule int_div_pos_eq[where r = "msPerDay - tzaMs env"])
    show "localDay env t * msPerDay - tzaMs env = msPerDay * (localDay env t - 1) + (msPerDay - tzaMs env)"
      by (simp add: algebra_simps)
  qed (use a in auto)
  then show "setHours0 env t div msPerDay = localDay env t - 1" by (simp add: setHours0_def)
next
  assume a: "- msPerDay < tzaMs env" "tzaMs env \<le> 0"
  have "(localDay env t * msPerDay - tzaMs env) div msPerDay = localDay env t"
  proof (rule int_div_pos_eq[where r = "- tzaMs env"])
    show "localDay env t * msPerDay - tzaMs env = msPerDay * localDay env t + (- tzaMs env)"
      by (simp add: algebra_simps)
  qed (use a in auto)
  then show "setHours0 env t div msPerDay = localDay env t" by (simp add: setHours0_def)
qed

lemma today_branch:
  "parseNaturalDate env ''today'' = Inr (Some (take 10 (toISOString (setHours0 env (nowMs env)))))"
  by code_simp

lemma tokyo_clock:
  "toISOString (nowMs tokyoEnv + tzaMs tokyoEnv) = ''2026-11-02T10:00:00.000Z''"
  "getDay tokyoEnv (nowMs tokyoEnv) = 1"
  "(daysFromCivil 2026 11 8 + 4) mod 7 = 0"
  by code_simp+

lemma tokyo_dates:
  "parseNaturalDate tokyoEnv ''today'' = Inr (Some ''2026-11-01'')"
  "parseNaturalDate tokyoEnv ''in 3 days'' = Inr (Some ''2026-11-04'')"
  "parseNaturalDate tokyoEnv ''next monday'' = Inr (Some ''2026-11-08'')"
  "parseNaturalDate tokyoEnv ''garbage text'' = Inr None"
  by code_simp+

lemma utc_dates:
  "parseNaturalDate utcEnv ''today'' = Inr (Some ''2026-11-02'')"
  "parseNaturalDate utcEnv ''next monday'' = Inr (Some ''2026-11-09'')"
  by code_simp+

text \<open>
  Claim C8 in a zone nine hours ahead of UTC, on Monday 2 November 2026 at 10:00 local
  time: ``today'' resolves to 1 November, ``in 3 days'' to 4 November, and ``next monday''
  to 8 November, a Sunday. With no offset from UTC the same phrases give 2 November and
  Monday 9 November.
\<close>

theorem parseNaturalDate_east_of_utc:
  "toISOString (nowMs tokyoEnv + tzaMs tokyoEnv) = ''2026-11-02T10:00:00.000Z''
   \<and> getDay tokyoEnv (nowMs tokyoEnv) = 1
   \<and> parseNaturalDate tokyoEnv ''today'' = Inr (Some ''2026-11-01'')
   \<and> parseNaturalDate tokyoEnv ''in 3 days'' = Inr (Some ''2026-11-04'')
   \<and> parseNaturalDate tokyoEnv ''next monday'' = Inr (Some ''2026-11-08'')
   \<and> (daysFromCivil 2026 11 8 + 4) mod 7 = 0
   \<and> parseNaturalDate utcEnv ''today'' = Inr (Some ''2026-11-02'')
   \<and> parseNaturalDate utcEnv ''next monday'' = Inr (Some ''2026-11-09'')"
  using tokyo_clock tokyo_dates utc_dates by simp

section \<open>The create intent\<close>

text \<open>
  Claim C9. On a board without tasks the message ``Create task: Fix login bug'' gives
  the confirmation text and one action, \<open>Create\<close> with the column \<open>Todo\<close>, the title
  ``Fix login bug'', an empty description, the priority \<open>Medium\<close>, no due date and no tags,
  whatever the clock and the time zone are.
\<close>

theorem create_task_fix_login_bug:
  "processMessage env ''Create task: Fix login bug'' [] =
     Inr (Some \<lparr>r_text = ''[U+2705] **Task created!**'' @ nl @ nl @ ''[U+1F4CB] **Fix login bug**'' @ nl
                  @ ''[U+1F7E1] Priority: **medium**'' @ nl @ ''[U+1F4C2] Column: **To Do**'',
                r_action = Some (Create Todo ''Fix login bug'' [] Medium None [])\<rparr>)"
  by code_simp

end
